theory Spec2Isabelle
  imports Main "HOL-Library.AList" "HOL-Library.Log_Nat"
begin

section \<open>JavaScript values and dotted-path access\<close>

text \<open>
  Commands, events, snapshots and the model's field bag are plain structured data.
  Objects keep their keys in insertion order, as JavaScript does. Numbers are the
  integers that a double holds; arrays inside payloads are opaque to the aggregate and
  are left out.
\<close>

datatype jsval =
    JUndefined
  | JNull
  | JBool bool
  | JNum int
  | JStr string
  | JObj "(string \<times> jsval) list"

text \<open>\<^verbatim>\<open>!!v\<close>: the truthiness every \<^verbatim>\<open>if (!x)\<close> of the source tests.\<close>

fun truthy :: "jsval \<Rightarrow> bool" where
  "truthy JUndefined = False"
| "truthy JNull = False"
| "truthy (JBool b) = b"
| "truthy (JNum n) = (n \<noteq> 0)"
| "truthy (JStr s) = (s \<noteq> [])"
| "truthy (JObj kvs) = True"

text \<open>\<^verbatim>\<open>object[key]\<close>: a missing property reads as \<^verbatim>\<open>undefined\<close>.\<close>

definition js_prop :: "(string \<times> jsval) list \<Rightarrow> string \<Rightarrow> jsval" where
  "js_prop kvs k = (case map_of kvs k of None \<Rightarrow> JUndefined | Some v \<Rightarrow> v)"

text \<open>\<^verbatim>\<open>path.split(".")\<close>: the result always has at least one segment.\<close>

fun split_dot :: "string \<Rightarrow> string list" where
  "split_dot [] = [[]]"
| "split_dot (c # cs) =
     (if c = CHR ''.'' then [] # split_dot cs
      else (case split_dot cs of [] \<Rightarrow> [[c]] | w # ws \<Rightarrow> (c # w) # ws))"

text \<open>
  The three operations of the \<^verbatim>\<open>dotty\<close> library on a path that is already split.
  Each shifts the first key off the path, gives up on a non-object, and recurses into
  \<^verbatim>\<open>object[key]\<close> while segments remain.
\<close>

fun get_path :: "jsval \<Rightarrow> string list \<Rightarrow> jsval" where
  "get_path (JObj kvs) (k # ks) =
     (if ks = [] then js_prop kvs k else get_path (js_prop kvs k) ks)"
| "get_path _ _ = JUndefined"

fun exists_path :: "jsval \<Rightarrow> string list \<Rightarrow> bool" where
  "exists_path (JObj kvs) (k # ks) =
     (if ks = [] then map_of kvs k \<noteq> None else exists_path (js_prop kvs k) ks)"
| "exists_path _ _ = False"

text \<open>
  \<^verbatim>\<open>put\<close> mutates the object in place; the model returns the object after the call.
  An undefined intermediate property becomes \<^verbatim>\<open>{}\<close>; any other non-object there makes
  \<^verbatim>\<open>put\<close> return \<^verbatim>\<open>false\<close> and leave the object as it was.
\<close>

fun put_path :: "jsval \<Rightarrow> string list \<Rightarrow> jsval \<Rightarrow> jsval" where
  "put_path (JObj kvs) (k # ks) v =
     (if ks = [] then JObj (AList.update k v kvs)
      else (case js_prop kvs k of
              JUndefined \<Rightarrow> JObj (AList.update k (put_path (JObj []) ks v) kvs)
            | JObj kvs' \<Rightarrow> JObj (AList.update k (put_path (JObj kvs') ks v) kvs)
            | _ \<Rightarrow> JObj kvs))"
| "put_path obj _ _ = obj"

text \<open>Whether \<^verbatim>\<open>put\<close> on this path will store its value (it does not return \<^verbatim>\<open>false\<close>).\<close>

fun writable_path :: "jsval \<Rightarrow> string list \<Rightarrow> bool" where
  "writable_path (JObj kvs) (k # ks) =
     (if ks = [] then True
      else (case js_prop kvs k of
              JUndefined \<Rightarrow> writable_path (JObj []) ks
            | JObj kvs' \<Rightarrow> writable_path (JObj kvs') ks
            | _ \<Rightarrow> False))"
| "writable_path _ _ = False"

text \<open>
  The path handed to \<^verbatim>\<open>dotty\<close> comes from a field mapping: it is a string, or it is
  \<^verbatim>\<open>undefined\<close> when the mapping has no entry for the attribute. A path that is neither
  a string nor an array makes \<^verbatim>\<open>get\<close> return \<^verbatim>\<open>undefined\<close> and makes \<^verbatim>\<open>exists\<close> and \<^verbatim>\<open>put\<close>
  return \<^verbatim>\<open>false\<close>, the object untouched.
\<close>

definition dotty_get :: "jsval \<Rightarrow> string option \<Rightarrow> jsval" where
  "dotty_get obj path =
     (case path of None \<Rightarrow> JUndefined | Some p \<Rightarrow> get_path obj (split_dot p))"

definition dotty_exists :: "jsval \<Rightarrow> string option \<Rightarrow> bool" where
  "dotty_exists obj path =
     (case path of None \<Rightarrow> False | Some p \<Rightarrow> exists_path obj (split_dot p))"

definition dotty_put :: "jsval \<Rightarrow> string option \<Rightarrow> jsval \<Rightarrow> jsval" where
  "dotty_put obj path v =
     (case path of None \<Rightarrow> obj | Some p \<Rightarrow> put_path obj (split_dot p) v)"

definition dotty_writable :: "jsval \<Rightarrow> string option \<Rightarrow> bool" where
  "dotty_writable obj path =
     (case path of None \<Rightarrow> False | Some p \<Rightarrow> writable_path obj (split_dot p))"

text \<open>\<^verbatim>\<open>!!path\<close>: a mapping counts as configured when it is a non-empty string.\<close>

fun mapped :: "string option \<Rightarrow> bool" where
  "mapped None = False"
| "mapped (Some p) = (p \<noteq> [])"

text \<open>
  Two split paths diverge when they differ at a position both have: neither is a
  prefix of the other, so a write through one never touches what the other reads.
  Two paths overlap when they do not diverge. Nothing is written or read through a
  path that is \<^verbatim>\<open>undefined\<close>, so such a path is independent of every path.
\<close>

fun diverge :: "string list \<Rightarrow> string list \<Rightarrow> bool" where
  "diverge (a # as) (b # bs) = (a \<noteq> b \<or> diverge as bs)"
| "diverge _ _ = False"

definition independent :: "string option \<Rightarrow> string option \<Rightarrow> bool" where
  "independent p q =
     (case p of
        None \<Rightarrow> True
      | Some a \<Rightarrow> (case q of None \<Rightarrow> True | Some b \<Rightarrow> diverge (split_dot a) (split_dot b)))"

text \<open>
  Arithmetic on numbers is arithmetic on doubles. \<open>to_double\<close> is the double that an
  exact integer result is rounded to: itself up to \<open>2 ^ 53\<close> in absolute value, and beyond
  that the nearest multiple of the spacing of doubles at its size, a tie going to the
  even mantissa. (One more than a double is never rounded to \<^verbatim>\<open>Infinity\<close>.)
\<close>

definition to_double :: "int \<Rightarrow> int" where
  "to_double y =
     (let a = \<bar>y\<bar>
      in if a \<le> 2 ^ 53 then y
         else (let s = 2 ^ nat (bitlen a - 53);
                   q = a div s;
                   r = a mod s;
                   q' = (if 2 * r < s \<or> (2 * r = s \<and> even q) then q else q + 1)
               in sgn y * (q' * s)))"

text \<open>\<^verbatim>\<open>x + y\<close> on two numbers.\<close>

definition js_plus :: "int \<Rightarrow> int \<Rightarrow> int" where
  "js_plus x y = to_double (x + y)"


section \<open>Errors\<close>

text \<open>
  Every \<^verbatim>\<open>throw\<close> of the source and every error handed to a callback is a value, and
  so are the two \<^verbatim>\<open>TypeError\<close>s of the language that the source can run into: reading the
  name of a context that was not injected, and comparing an object that cannot be
  converted to a primitive value. \<open>Failure\<close> carries an error supplied from outside: by a
  precondition, a business rule, a command's own checks or the id generator.
\<close>

datatype error =
    InvalidName
  | InvalidVersion
  | InvalidId
  | NoCommandName
  | CommandNotFound jsval
  | NoEventName
  | EventNotFound jsval
  | NoSnapshotConversion
  | SetNotAllowed
  | NoContext
  | NotPrimitive
  | Failure string

section \<open>The state container\<close>

text \<open>
  Modelled from the spec: the AggregateModel and its operations (\<^verbatim>\<open>lib/aggregateModel.js\<close>
  is not among the sources). It holds the identity, the revision counter, the bag of
  domain fields and the ordered list of uncommitted events. \<open>getRevision\<close> and
  \<open>setRevision\<close> are plain accessors of the counter, which holds a number, \<open>toJSON\<close> is a
  copy of the bag, \<open>reset\<close> replaces the bag, and \<open>set\<close> assigns the given fields into the
  bag while the mutation gate is open and fails with a usage error while it is closed.
  The source closes the gate by replacing the instance's \<^verbatim>\<open>set\<close> with a function that
  throws and opens it by delegating to the prototype again; \<open>settable\<close> records which of
  the two is installed.
\<close>

record aggregateModel =
  model_id :: string
  revision :: int
  attributes :: jsval
  uncommittedEvents :: "jsval list"
  settable :: bool

definition newAggregateModel :: "string \<Rightarrow> jsval \<Rightarrow> aggregateModel" where
  "newAggregateModel i modelInitValues =
     \<lparr>model_id = i, revision = 0, attributes = modelInitValues,
      uncommittedEvents = [], settable = True\<rparr>"

definition getRevision :: "aggregateModel \<Rightarrow> int" where
  "getRevision m = revision m"

definition setRevision :: "int \<Rightarrow> aggregateModel \<Rightarrow> aggregateModel" where
  "setRevision r m = m\<lparr>revision := r\<rparr>"

definition getUncommittedEvents :: "aggregateModel \<Rightarrow> jsval list" where
  "getUncommittedEvents m = uncommittedEvents m"

definition addUncommittedEvent :: "jsval \<Rightarrow> aggregateModel \<Rightarrow> aggregateModel" where
  "addUncommittedEvent evt m = m\<lparr>uncommittedEvents := uncommittedEvents m @ [evt]\<rparr>"

definition clearUncommittedEvents :: "aggregateModel \<Rightarrow> aggregateModel" where
  "clearUncommittedEvents m = m\<lparr>uncommittedEvents := []\<rparr>"

definition toJSON :: "aggregateModel \<Rightarrow> jsval" where
  "toJSON m = attributes m"

definition reset :: "jsval \<Rightarrow> aggregateModel \<Rightarrow> aggregateModel" where
  "reset data m = m\<lparr>attributes := data\<rparr>"

text \<open>The fields of \<open>data\<close> are assigned into the bag, each key read as a dotted path.\<close>

definition assign :: "jsval \<Rightarrow> jsval \<Rightarrow> jsval" where
  "assign bag data =
     (case data of
        JObj kvs \<Rightarrow> foldl (\<lambda>b kv. dotty_put b (Some (fst kv)) (snd kv)) bag kvs
      | _ \<Rightarrow> bag)"

text \<open>
  An operation on the model returns (\<open>Inr\<close>, with the model after it) or throws (\<open>Inl\<close>,
  with the error and the model as it is at the \<^verbatim>\<open>throw\<close>: what was done to the object
  before stays done).
\<close>

type_synonym 'a thrown = "(error \<times> aggregateModel) + 'a"

definition model_set :: "jsval \<Rightarrow> aggregateModel \<Rightarrow> aggregateModel thrown" where
  "model_set data m =
     (if settable m then Inr (m\<lparr>attributes := assign (attributes m) data\<rparr>)
      else Inl (SetNotAllowed, m))"

fun set_all :: "jsval list \<Rightarrow> aggregateModel \<Rightarrow> aggregateModel thrown" where
  "set_all [] m = Inr m"
| "set_all (d # ds) m =
     (case model_set d m of Inl x \<Rightarrow> Inl x | Inr m' \<Rightarrow> set_all ds m')"

text \<open>The model as a call leaves it, returning or throwing, and what it threw.\<close>

fun modelAfter :: "aggregateModel thrown \<Rightarrow> aggregateModel" where
  "modelAfter (Inl x) = snd x"
| "modelAfter (Inr m) = m"

fun thrownBy :: "aggregateModel thrown \<Rightarrow> error option" where
  "thrownBy (Inl x) = Some (fst x)"
| "thrownBy (Inr m) = None"

section \<open>Definitions held by the registries\<close>

text \<open>
  The field mapping of the Definition base class: for commands and for events, the
  dotted path of each attribute, or nothing (\<^verbatim>\<open>undefined\<close>) for an attribute that has no
  entry. A missing entry and the empty string are both falsy in the source's \<^verbatim>\<open>!!\<close> tests;
  where the source uses a path without testing it, the empty string is the key \<^verbatim>\<open>""\<close>
  and a missing entry is no path at all.
\<close>

record fieldMapping =
  fm_name :: "string option"
  fm_payload :: "string option"
  fm_id :: "string option"
  fm_revision :: "string option"
  fm_version :: "string option"
  fm_meta :: "string option"
  fm_aggregateId :: "string option"
  fm_correlationId :: "string option"
  fm_aggregate :: "string option"
  fm_context :: "string option"

record definitions =
  def_command :: fieldMapping
  def_event :: fieldMapping

record options =
  snapshotThreshold :: "int option"
  snapshotThresholdMs :: "int option"

text \<open>
  What a command's handle function does with the apply capability: it returns, it
  throws, or it calls \<^verbatim>\<open>aggregateModel.apply(name, payload)\<close> and goes on from what the
  call threw, if it threw and the handler caught it, and from the fields the model has
  after the call. The handler changes the model through the capability only, and the
  object it hands over as an event is a new one at each call: events are values here,
  and an object that is already among the uncommitted events is not handed over again.
\<close>

datatype handling =
    Return
  | Throw error
  | ApplyThen jsval jsval "error option \<times> jsval \<Rightarrow> handling"

text \<open>A handler that does not catch: what the capability throws leaves the handler.\<close>

definition uncaught :: "(jsval \<Rightarrow> handling) \<Rightarrow> error option \<times> jsval \<Rightarrow> handling" where
  "uncaught k x = (case fst x of Some e \<Rightarrow> Throw e | None \<Rightarrow> k (snd x))"

text \<open>
  Modelled from the spec: the Command, Event, BusinessRule, PreCondition and
  CommandHandler definitions (their files are not among the sources). Each has a name,
  a version or a priority, and the operations the aggregate calls. \<open>ref\<close> is the
  object's identity, which \<^verbatim>\<open>indexOf\<close> compares on registration.
  An Event's apply changes the model through \<^verbatim>\<open>set\<close> only: \<open>evt_fn\<close> gives, for the event
  and the current fields, the arguments of its \<^verbatim>\<open>set\<close> calls.
  A PreCondition's check returns what it made of the command object it was handed,
  and the error it reports, if any.
\<close>

record commandDef =
  cmd_ref :: nat
  cmd_name :: string
  cmd_version :: nat
  cmd_payload :: string
  cmd_checkPreConditions :: "jsval \<Rightarrow> aggregateModel \<Rightarrow> error option"
  cmd_handle :: "jsval \<Rightarrow> jsval \<Rightarrow> handling"

record eventDef =
  evt_ref :: nat
  evt_name :: string
  evt_version :: nat
  evt_payload :: string
  evt_fn :: "jsval \<Rightarrow> jsval \<Rightarrow> jsval list"

record businessRule =
  br_ref :: nat
  br_name :: string
  br_priority :: int
  br_check :: "aggregateModel \<Rightarrow> aggregateModel \<Rightarrow> jsval list \<Rightarrow> jsval \<Rightarrow> error option"

record preCondition =
  pc_ref :: nat
  pc_name :: string
  pc_priority :: int
  pc_payload :: string
  pc_check :: "jsval \<Rightarrow> aggregateModel \<Rightarrow> jsval \<times> error option"

record commandHandler =
  ch_ref :: nat
  ch_name :: string
  ch_version :: nat

text \<open>
  Modelled from the spec: the apply operation of an Event definition, which makes its
  \<^verbatim>\<open>set\<close> calls one after the other on the model it is given.
\<close>

definition Event_apply :: "eventDef \<Rightarrow> jsval \<Rightarrow> aggregateModel \<Rightarrow> aggregateModel thrown" where
  "Event_apply e evt m = set_all (evt_fn e evt (attributes m)) m"

section \<open>The aggregate\<close>

text \<open>
  \<open>getNewId n\<close> is the answer of the injected id generator to its \<open>n\<close>-th call.
  \<open>snapshotNeed\<close> is the function installed by \<^verbatim>\<open>defineSnapshotNeed\<close>, if any.
  \<open>agg_context\<close> is the name of the injected context, if one was injected.
\<close>

record aggregate =
  agg_name :: string
  agg_context :: "string option"
  agg_version :: nat
  definitions :: definitions
  options :: options
  defaultCommandPayload :: string
  defaultEventPayload :: string
  defaultPreConditionPayload :: string
  commands :: "commandDef list"
  events :: "eventDef list"
  businessRules :: "businessRule list"
  preConditions :: "preCondition list"
  commandHandlers :: "commandHandler list"
  snapshotConversions :: "nat \<Rightarrow> (jsval \<Rightarrow> jsval \<Rightarrow> jsval list) option"
  snapshotNeed :: "(int \<Rightarrow> jsval list \<Rightarrow> jsval \<Rightarrow> bool) option"
  getNewId :: "nat \<Rightarrow> error + jsval"
  modelInitValues :: jsval
  defaultCommandHandler :: commandHandler

text \<open>
  The constructor: the registries start empty. What the Definition base class keeps
  (name, field mapping, options) and the Default Command Handler are parameters, and so
  is the id generator, which the source sets to a function returning a fresh uuid.
\<close>

definition Aggregate ::
  "string \<Rightarrow> nat \<Rightarrow> definitions \<Rightarrow> options \<Rightarrow> string \<Rightarrow> string \<Rightarrow> string
     \<Rightarrow> jsval \<Rightarrow> commandHandler \<Rightarrow> (nat \<Rightarrow> error + jsval) \<Rightarrow> aggregate" where
  "Aggregate name version defs opts commandPayload eventPayload preConditionPayload
       initValues defaultHandler uuid =
     \<lparr>agg_name = name, agg_context = None, agg_version = version,
      definitions = defs, options = opts,
      defaultCommandPayload = commandPayload, defaultEventPayload = eventPayload,
      defaultPreConditionPayload = preConditionPayload,
      commands = [], events = [], businessRules = [], preConditions = [], commandHandlers = [],
      snapshotConversions = Map.empty, snapshotNeed = None, getNewId = uuid,
      modelInitValues = initValues, defaultCommandHandler = defaultHandler\<rparr>"

text \<open>
  \<^verbatim>\<open>idGenerator(fn)\<close>: a function without parameters returns the id and is wrapped so
  that it hands the id to a callback; a function with a callback may hand it an error.
\<close>

datatype idFunction =
    Returning "nat \<Rightarrow> jsval"
  | Calling "nat \<Rightarrow> error + jsval"

definition idGenerator :: "idFunction \<Rightarrow> aggregate \<Rightarrow> aggregate" where
  "idGenerator fn agg =
     agg\<lparr>getNewId := (case fn of Returning f \<Rightarrow> (\<lambda>n. Inr (f n)) | Calling g \<Rightarrow> g)\<rparr>"

definition defineContext :: "string \<Rightarrow> aggregate \<Rightarrow> aggregate" where
  "defineContext context agg = agg\<lparr>agg_context := Some context\<rparr>"

fun isString :: "jsval \<Rightarrow> bool" where
  "isString (JStr s) = True"
| "isString _ = False"

fun isNumber :: "jsval \<Rightarrow> bool" where
  "isNumber (JNum n) = True"
| "isNumber _ = False"

subsection \<open>Registration\<close>

definition addCommand :: "commandDef \<Rightarrow> aggregate \<Rightarrow> aggregate" where
  "addCommand command agg =
     (let command = (if cmd_payload command = [] then command\<lparr>cmd_payload := defaultCommandPayload agg\<rparr>
                     else command)
      in if cmd_ref command \<in> set (map cmd_ref (commands agg)) then agg
         else agg\<lparr>commands := commands agg @ [command]\<rparr>)"

definition addEvent :: "eventDef \<Rightarrow> aggregate \<Rightarrow> aggregate" where
  "addEvent event agg =
     (let event = (if evt_payload event = [] then event\<lparr>evt_payload := defaultEventPayload agg\<rparr>
                   else event)
      in if evt_ref event \<in> set (map evt_ref (events agg)) then agg
         else agg\<lparr>events := events agg @ [event]\<rparr>)"

definition addBusinessRule :: "businessRule \<Rightarrow> aggregate \<Rightarrow> aggregate" where
  "addBusinessRule businessRule agg =
     (if br_ref businessRule \<in> set (map br_ref (businessRules agg)) then agg
      else agg\<lparr>businessRules := sort_key br_priority (businessRules agg @ [businessRule])\<rparr>)"

definition addPreCondition :: "preCondition \<Rightarrow> aggregate \<Rightarrow> aggregate" where
  "addPreCondition preCond agg =
     (let preCond = (if pc_payload preCond = [] then preCond\<lparr>pc_payload := defaultPreConditionPayload agg\<rparr>
                     else preCond)
      in if pc_ref preCond \<in> set (map pc_ref (preConditions agg)) then agg
         else agg\<lparr>preConditions := sort_key pc_priority (preConditions agg @ [preCond])\<rparr>)"

definition addCommandHandler :: "commandHandler \<Rightarrow> aggregate \<Rightarrow> aggregate" where
  "addCommandHandler commandHandler agg =
     (if ch_ref commandHandler \<in> set (map ch_ref (commandHandlers agg)) then agg
      else agg\<lparr>commandHandlers := commandHandlers agg @ [commandHandler]\<rparr>)"

subsection \<open>Lookup\<close>

text \<open>
  The three lookups share their guards: the name must be a non-empty string, a falsy
  version is 0, and any other version must be a number. \<^verbatim>\<open>_.find\<close> returns the first
  match in registration order, or \<^verbatim>\<open>undefined\<close>.
\<close>

definition getCommand :: "aggregate \<Rightarrow> jsval \<Rightarrow> jsval \<Rightarrow> error + commandDef option" where
  "getCommand agg name version =
     (if \<not> truthy name \<or> \<not> isString name then Inl InvalidName
      else let version = (if truthy version then version else JNum 0)
           in if \<not> isNumber version then Inl InvalidVersion
              else Inr (find (\<lambda>cmd. JStr (cmd_name cmd) = name \<and> JNum (int (cmd_version cmd)) = version)
                          (commands agg)))"

definition getEvent :: "aggregate \<Rightarrow> jsval \<Rightarrow> jsval \<Rightarrow> error + eventDef option" where
  "getEvent agg name version =
     (if \<not> truthy name \<or> \<not> isString name then Inl InvalidName
      else let version = (if truthy version then version else JNum 0)
           in if \<not> isNumber version then Inl InvalidVersion
              else Inr (find (\<lambda>evt. JStr (evt_name evt) = name \<and> JNum (int (evt_version evt)) = version)
                          (events agg)))"

definition getCommandHandler :: "aggregate \<Rightarrow> jsval \<Rightarrow> jsval \<Rightarrow> error + commandHandler" where
  "getCommandHandler agg name version =
     (if \<not> truthy name \<or> \<not> isString name then Inl InvalidName
      else let version = (if truthy version then version else JNum 0)
           in if \<not> isNumber version then Inl InvalidVersion
              else (case find (\<lambda>cmdHnd. JStr (ch_name cmdHnd) = name \<and> JNum (int (ch_version cmdHnd)) = version)
                          (commandHandlers agg) of
                      Some handler \<Rightarrow> Inr handler
                    | None \<Rightarrow> Inr (defaultCommandHandler agg)))"

definition create :: "aggregate \<Rightarrow> jsval \<Rightarrow> error + aggregateModel" where
  "create agg i =
     (case i of
        JStr s \<Rightarrow> if s = [] then Inl InvalidId else Inr (newAggregateModel s (modelInitValues agg))
      | _ \<Rightarrow> Inl InvalidId)"

subsection \<open>Snapshot policy\<close>

text \<open>An option counts as set when its value is truthy: absent and 0 are both falsy.\<close>

fun configured :: "int option \<Rightarrow> bool" where
  "configured None = False"
| "configured (Some n) = (n \<noteq> 0)"

definition isSnapshotNeeded :: "aggregate \<Rightarrow> int \<Rightarrow> jsval list \<Rightarrow> jsval \<Rightarrow> bool" where
  "isSnapshotNeeded agg loadingTime evts aggregateModel =
     (let snapshotThreshold =
            (case snapshotThreshold (options agg) of
               Some t \<Rightarrow> if configured (Some t) then t else 100
             | None \<Rightarrow> 100)
      in case snapshotThresholdMs (options agg) of
           Some ms \<Rightarrow> if configured (Some ms) then loadingTime \<ge> ms
                      else int (length evts) \<ge> snapshotThreshold
         | None \<Rightarrow> int (length evts) \<ge> snapshotThreshold)"

definition defineSnapshotNeed ::
  "(int \<Rightarrow> jsval list \<Rightarrow> jsval \<Rightarrow> bool) \<Rightarrow> aggregate \<Rightarrow> aggregate" where
  "defineSnapshotNeed fn agg = agg\<lparr>snapshotNeed := Some fn\<rparr>"

definition defineSnapshotConversion ::
  "nat \<Rightarrow> (jsval \<Rightarrow> jsval \<Rightarrow> jsval list) \<Rightarrow> aggregate \<Rightarrow> aggregate" where
  "defineSnapshotConversion version fn agg =
     agg\<lparr>snapshotConversions := (snapshotConversions agg)(version \<mapsto> fn)\<rparr>"


section \<open>Replay\<close>

text \<open>
  The calls the aggregate makes into the definitions it was given, in the order it
  makes them.
\<close>

datatype call =
    PreConditionCheck nat
  | CommandPreConditions nat
  | EventApply nat

text \<open>
  \<^verbatim>\<open>apply(events, aggregateModel)\<close> takes one event or an array of events. The loop
  body of its \<^verbatim>\<open>forEach\<close> resolves the Event definition and calls it; a \<^verbatim>\<open>throw\<close> ends
  the loop, the model staying as the events before have left it.
\<close>

datatype events_arg = One jsval | Many "jsval list"

fun forEach_apply ::
  "aggregate \<Rightarrow> jsval list \<Rightarrow> aggregateModel \<Rightarrow> call list \<times> aggregateModel thrown" where
  "forEach_apply agg [] m = ([], Inr m)"
| "forEach_apply agg (evt # evts) m =
     (let evtName = dotty_get evt (fm_name (def_event (definitions agg)))
      in if \<not> truthy evtName then ([], Inl (NoEventName, m))
         else let version = (if mapped (fm_version (def_event (definitions agg)))
                             then dotty_get evt (fm_version (def_event (definitions agg)))
                             else JNum 0)
              in case getEvent agg evtName version of
                   Inl e \<Rightarrow> ([], Inl (e, m))
                 | Inr None \<Rightarrow> ([], Inl (EventNotFound evtName, m))
                 | Inr (Some event) \<Rightarrow>
                     (case Event_apply event evt m of
                        Inl x \<Rightarrow> ([EventApply (evt_ref event)], Inl x)
                      | Inr m' \<Rightarrow>
                          (case forEach_apply agg evts m' of
                             (calls, r) \<Rightarrow> (EventApply (evt_ref event) # calls, r))))"

definition Aggregate_apply ::
  "aggregate \<Rightarrow> events_arg \<Rightarrow> aggregateModel \<Rightarrow> call list \<times> aggregateModel thrown" where
  "Aggregate_apply agg evts m =
     (case evts of
        One evt \<Rightarrow> if \<not> truthy evt then ([], Inr m) else forEach_apply agg [evt] m
      | Many es \<Rightarrow> forEach_apply agg es m)"

section \<open>The apply capability\<close>

text \<open>The event envelope built from the arguments of \<^verbatim>\<open>aggregateModel.apply\<close>.\<close>

definition buildEvent :: "aggregate \<Rightarrow> jsval \<Rightarrow> jsval \<Rightarrow> jsval" where
  "buildEvent agg name payload =
     (if \<not> truthy payload then
        (case name of
           JStr s \<Rightarrow> dotty_put (JObj []) (fm_name (def_event (definitions agg))) name
         | JObj kvs \<Rightarrow> name
         | _ \<Rightarrow> JUndefined)
      else dotty_put (dotty_put (JObj []) (fm_name (def_event (definitions agg))) name)
             (fm_payload (def_event (definitions agg))) payload)"

definition stampMeta :: "aggregate \<Rightarrow> jsval \<Rightarrow> jsval \<Rightarrow> jsval" where
  "stampMeta agg cmd evt =
     (if mapped (fm_meta (def_event (definitions agg))) \<and> mapped (fm_meta (def_command (definitions agg)))
      then dotty_put evt (fm_meta (def_event (definitions agg)))
             (dotty_get cmd (fm_meta (def_command (definitions agg))))
      else evt)"

text \<open>
  The version of an event that does not carry one: the greatest version among the
  registered Event definitions of its name, found by a \<^verbatim>\<open>reduce\<close> that starts at 0.
\<close>

definition maxVersion :: "aggregate \<Rightarrow> jsval \<Rightarrow> nat" where
  "maxVersion agg evtName =
     foldl (\<lambda>res e. if JStr (evt_name e) \<noteq> evtName then res
                     else (let v = evt_version e in if v > res then v else res))
       0 (events agg)"

definition stampVersion :: "aggregate \<Rightarrow> jsval \<Rightarrow> jsval" where
  "stampVersion agg evt =
     (if mapped (fm_version (def_event (definitions agg))) then
        (if \<not> dotty_exists evt (fm_version (def_event (definitions agg))) then
           (let evtName = dotty_get evt (fm_name (def_event (definitions agg)))
            in dotty_put evt (fm_version (def_event (definitions agg)))
                 (JNum (int (maxVersion agg evtName))))
         else evt)
      else evt)"

definition stampAggregate :: "aggregate \<Rightarrow> jsval \<Rightarrow> jsval \<Rightarrow> jsval" where
  "stampAggregate agg cmd evt =
     (if mapped (fm_aggregate (def_event (definitions agg))) \<and> mapped (fm_aggregate (def_command (definitions agg)))
      then (let aggName = dotty_get cmd (fm_aggregate (def_command (definitions agg)))
            in dotty_put evt (fm_aggregate (def_event (definitions agg)))
                 (if truthy aggName then aggName else JStr (agg_name agg)))
      else evt)"

definition stampContext :: "aggregate \<Rightarrow> jsval \<Rightarrow> jsval \<Rightarrow> error + jsval" where
  "stampContext agg cmd evt =
     (if mapped (fm_context (def_event (definitions agg))) \<and> mapped (fm_context (def_command (definitions agg)))
      then (let ctxName = dotty_get cmd (fm_context (def_command (definitions agg)))
            in if truthy ctxName
               then Inr (dotty_put evt (fm_context (def_event (definitions agg))) ctxName)
               else (case agg_context agg of
                       None \<Rightarrow> Inl NoContext
                     | Some n \<Rightarrow> Inr (dotty_put evt (fm_context (def_event (definitions agg))) (JStr n))))
      else Inr evt)"

text \<open>
  One call of the function that \<^verbatim>\<open>applyHelper\<close> returns: it opens the gate, builds and
  stamps the event, appends it to the uncommitted events, applies it to the model and
  closes the gate again. The context stamp throws when there is no name to stamp and
  no context was injected, and the replay of the event may throw: the model then stays
  as it is at that point, the revision raised and the gate open, and after a \<^verbatim>\<open>throw\<close> of
  the replay with the event appended. The source stamps the event object in place; here
  the stamped event is a value, which is what the uncommitted events hold of an object
  that is handed over once.
\<close>

definition applyHelper ::
  "aggregate \<Rightarrow> aggregateModel \<Rightarrow> jsval \<Rightarrow> jsval \<Rightarrow> jsval \<Rightarrow> aggregateModel thrown" where
  "applyHelper agg aggregateModel cmd name payload =
     (let m1 = aggregateModel\<lparr>settable := True\<rparr>;
          evt1 = stampMeta agg cmd (buildEvent agg name payload);
          rev = js_plus (getRevision m1) 1;
          m2 = setRevision rev m1;
          evt2 = dotty_put evt1 (fm_revision (def_event (definitions agg))) (JNum rev);
          evt3 = dotty_put evt2 (fm_aggregateId (def_event (definitions agg))) (JStr (model_id m2));
          evt4 = dotty_put evt3 (fm_correlationId (def_event (definitions agg)))
                   (dotty_get cmd (fm_id (def_command (definitions agg))));
          evt5 = stampAggregate agg cmd (stampVersion agg evt4)
      in case stampContext agg cmd evt5 of
           Inl e \<Rightarrow> Inl (e, m2)
         | Inr evt \<Rightarrow>
             (case snd (Aggregate_apply agg (One evt) (addUncommittedEvent evt m2)) of
                Inl x \<Rightarrow> Inl x
              | Inr m3 \<Rightarrow> Inr (m3\<lparr>settable := False\<rparr>)))"

text \<open>
  The event as the function of \<open>applyHelper\<close> has it when it reaches the version step:
  built, and stamped with the meta data, the new revision, the aggregate id and the
  correlation id.
\<close>

definition constructedEvent ::
  "aggregate \<Rightarrow> aggregateModel \<Rightarrow> jsval \<Rightarrow> jsval \<Rightarrow> jsval \<Rightarrow> jsval" where
  "constructedEvent agg m cmd name payload =
     dotty_put
       (dotty_put
          (dotty_put (stampMeta agg cmd (buildEvent agg name payload))
             (fm_revision (def_event (definitions agg))) (JNum (js_plus (getRevision m) 1)))
          (fm_aggregateId (def_event (definitions agg))) (JStr (model_id m)))
       (fm_correlationId (def_event (definitions agg)))
       (dotty_get cmd (fm_id (def_command (definitions agg))))"


text \<open>
  The command's handle function run against the model with the capability attached.
  The result is, besides the model and whether the handler returned or threw, the list
  of the handler's invocations of the capability in the order it made them: for each,
  what it threw, if anything, and the model after it.
\<close>

primrec runHandling ::
  "handling \<Rightarrow> aggregate \<Rightarrow> jsval \<Rightarrow> aggregateModel
     \<Rightarrow> (error option \<times> aggregateModel) list \<times> aggregateModel thrown" where
  "runHandling Return agg cmd m = ([], Inr m)"
| "runHandling (Throw e) agg cmd m = ([], Inl (e, m))"
| "runHandling (ApplyThen name payload k) agg cmd m =
     (let r = applyHelper agg m cmd name payload;
          m' = modelAfter r
      in case runHandling (k (thrownBy r, attributes m')) agg cmd m' of
           (invocations, res) \<Rightarrow> ((thrownBy r, m') # invocations, res))"

section \<open>Preconditions and business rules\<close>

text \<open>
  Objects handed to code outside the aggregate live in a store, so that a copy and the
  original are told apart: an address is an index into the list of cells.
  \<^verbatim>\<open>_.cloneDeep\<close> puts an equal value into a new cell.
\<close>

type_synonym heap = "jsval list"

definition deref :: "heap \<Rightarrow> nat \<Rightarrow> jsval" where
  "deref h a = (if a < length h then h ! a else JUndefined)"

definition cloneDeep :: "nat \<Rightarrow> heap \<Rightarrow> nat \<times> heap" where
  "cloneDeep a h = (length h, h @ [deref h a])"

text \<open>
  \<^verbatim>\<open>async.eachSeries\<close> over the aggregate's preconditions: each check gets a deep copy
  of the command and may do to it what it likes; the first error ends the series.
\<close>

fun eachSeries_preConditions ::
  "preCondition list \<Rightarrow> nat \<Rightarrow> aggregateModel \<Rightarrow> heap \<Rightarrow> heap \<times> call list \<times> error option" where
  "eachSeries_preConditions [] cmd m h = (h, [], None)"
| "eachSeries_preConditions (preCondition # rest) cmd m h =
     (case cloneDeep cmd h of
        (a, h1) \<Rightarrow>
          (case pc_check preCondition (deref h1 a) m of
             (arg, err) \<Rightarrow>
               (case err of
                  Some e \<Rightarrow> (h1[a := arg], [PreConditionCheck (pc_ref preCondition)], Some e)
                | None \<Rightarrow>
                    (case eachSeries_preConditions rest cmd m (h1[a := arg]) of
                       (h2, calls, r) \<Rightarrow> (h2, PreConditionCheck (pc_ref preCondition) # calls, r)))))"

text \<open>A precondition passes when its check, given the command, reports no error.\<close>

definition passes :: "jsval \<Rightarrow> aggregateModel \<Rightarrow> preCondition \<Rightarrow> bool" where
  "passes cmd m pc = (snd (pc_check pc cmd m) = None)"

definition checkAggregatePreConditions ::
  "aggregate \<Rightarrow> nat \<Rightarrow> aggregateModel \<Rightarrow> heap \<Rightarrow> heap \<times> call list \<times> error option" where
  "checkAggregatePreConditions agg cmd m h =
     (if length (preConditions agg) = 0 then (h, [], None)
      else eachSeries_preConditions (preConditions agg) cmd m h)"

text \<open>
  The result of \<open>checkPreConditions\<close> is \<open>Inl\<close> for an error thrown inside the callback
  of the aggregate-level chain and \<open>Inr\<close> for the argument the caller's callback gets.
\<close>

definition checkPreConditions ::
  "aggregate \<Rightarrow> nat \<Rightarrow> aggregateModel \<Rightarrow> heap \<Rightarrow> heap \<times> call list \<times> (error + error option)" where
  "checkPreConditions agg c m h =
     (case checkAggregatePreConditions agg c m h of
        (h', calls, Some e) \<Rightarrow> (h', calls, Inr (Some e))
      | (h', calls, None) \<Rightarrow>
          (let cmd = deref h' c;
               cmdName = dotty_get cmd (fm_name (def_command (definitions agg)))
           in if \<not> truthy cmdName then (h', calls, Inl NoCommandName)
              else let version = (if mapped (fm_version (def_command (definitions agg)))
                                  then dotty_get cmd (fm_version (def_command (definitions agg)))
                                  else JNum 0)
                   in case getCommand agg cmdName version of
                        Inl e \<Rightarrow> (h', calls, Inl e)
                      | Inr None \<Rightarrow> (h', calls, Inl (CommandNotFound cmdName))
                      | Inr (Some command) \<Rightarrow>
                          (h', calls @ [CommandPreConditions (cmd_ref command)],
                           Inr (cmd_checkPreConditions command cmd m))))"

fun eachSeries_rules ::
  "businessRule list \<Rightarrow> aggregateModel \<Rightarrow> aggregateModel \<Rightarrow> jsval list \<Rightarrow> jsval \<Rightarrow> error option" where
  "eachSeries_rules [] changed previous evts command = None"
| "eachSeries_rules (rule # rest) changed previous evts command =
     (case br_check rule changed previous evts command of
        Some e \<Rightarrow> Some e
      | None \<Rightarrow> eachSeries_rules rest changed previous evts command)"

definition checkBusinessRules ::
  "aggregate \<Rightarrow> aggregateModel \<Rightarrow> aggregateModel \<Rightarrow> jsval list \<Rightarrow> jsval \<Rightarrow> error option" where
  "checkBusinessRules agg changed previous evts command =
     eachSeries_rules (businessRules agg) changed previous evts command"


section \<open>Handling a command\<close>

text \<open>
  \<^verbatim>\<open>async.each\<close> over the uncommitted events: an event whose id field is truthy is left
  alone, any other gets the next id of the generator. The generator answers at once,
  so the events are served in order; at the first error the callback of \<open>handle\<close> fires,
  and the list is returned as it is at that moment. The number counts the generator's
  calls.
\<close>

fun each_assignId :: "aggregate \<Rightarrow> jsval list \<Rightarrow> nat \<Rightarrow> jsval list \<times> nat \<times> error option" where
  "each_assignId agg [] n = ([], n, None)"
| "each_assignId agg (evt # evts) n =
     (if truthy (dotty_get evt (fm_id (def_event (definitions agg))))
      then (case each_assignId agg evts n of (es, n', r) \<Rightarrow> (evt # es, n', r))
      else (case getNewId agg n of
              Inl e \<Rightarrow> (evt # evts, Suc n, Some e)
            | Inr i \<Rightarrow>
                (case each_assignId agg evts (Suc n) of
                   (es, n', r) \<Rightarrow> (dotty_put evt (fm_id (def_event (definitions agg))) i # es, n', r))))"

text \<open>
  \<open>handle\<close> either throws, or calls its callback with an error or with \<^verbatim>\<open>null\<close>; the
  result carries the model, the store and the generator's count as they are at the
  \<^verbatim>\<open>throw\<close> or when the callback is called. The command object is the cell \<open>c\<close> of the
  store.
  The two callbacks that \<open>handle\<close> passes on are functions of their own:
  \<open>idsAssigned\<close> is the callback of \<^verbatim>\<open>async.each\<close>, \<open>preConditionsChecked\<close> the callback
  of \<open>checkPreConditions\<close>.
\<close>

datatype handled =
    Thrown error aggregateModel heap nat
  | Callback "error option" aggregateModel heap nat

definition idsAssigned ::
  "aggregate \<Rightarrow> aggregateModel \<Rightarrow> aggregateModel \<Rightarrow> jsval \<Rightarrow> heap
     \<Rightarrow> jsval list \<times> nat \<times> error option \<Rightarrow> handled" where
  "idsAssigned agg m1 previousModel cmd h res =
     (case res of
        (evts, n', Some e) \<Rightarrow> Callback (Some e) (m1\<lparr>uncommittedEvents := evts\<rparr>) h n'
      | (evts, n', None) \<Rightarrow>
          (let m2 = m1\<lparr>uncommittedEvents := evts\<rparr>
           in case checkBusinessRules agg m2 previousModel evts cmd of
                None \<Rightarrow> Callback None m2 h n'
              | Some e \<Rightarrow>
                  Callback (Some e) (clearUncommittedEvents (reset (toJSON previousModel) m2)) h n'))"

definition preConditionsChecked ::
  "aggregate \<Rightarrow> commandDef \<Rightarrow> aggregateModel \<Rightarrow> nat \<Rightarrow> nat
     \<Rightarrow> heap \<times> call list \<times> (error + error option) \<Rightarrow> handled" where
  "preConditionsChecked agg command m0 c n res =
     (case res of
        (h1, calls, Inl e) \<Rightarrow> Thrown e m0 h1 n
      | (h1, calls, Inr (Some e)) \<Rightarrow> Callback (Some e) m0 h1 n
      | (h1, calls, Inr None) \<Rightarrow>
          (let previousModel = newAggregateModel (model_id m0) (toJSON m0);
               cmd = deref h1 c
           in case snd (runHandling (cmd_handle command cmd (attributes m0)) agg cmd m0) of
                Inl x \<Rightarrow> Thrown (fst x) (snd x) h1 n
              | Inr m1 \<Rightarrow>
                  idsAssigned agg m1 previousModel cmd h1
                    (each_assignId agg (getUncommittedEvents m1) n)))"

definition handle :: "aggregate \<Rightarrow> aggregateModel \<Rightarrow> nat \<Rightarrow> heap \<Rightarrow> nat \<Rightarrow> handled" where
  "handle agg aggregateModel c h n =
     (let cmd = deref h c;
          cmdName = dotty_get cmd (fm_name (def_command (definitions agg)))
      in if \<not> truthy cmdName then Callback (Some NoCommandName) aggregateModel h n
         else let version = (if mapped (fm_version (def_command (definitions agg)))
                             then dotty_get cmd (fm_version (def_command (definitions agg)))
                             else JNum 0)
              in case getCommand agg cmdName version of
                   Inl e \<Rightarrow> Thrown e aggregateModel h n
                 | Inr None \<Rightarrow> Callback (Some (CommandNotFound cmdName)) aggregateModel h n
                 | Inr (Some command) \<Rightarrow>
                     (let m0 = aggregateModel\<lparr>settable := False\<rparr>
                      in preConditionsChecked agg command m0 c n (checkPreConditions agg c m0 h)))"

section \<open>Loading from history\<close>

record snapshot =
  snap_version :: nat
  snap_revision :: int
  snap_data :: jsval

text \<open>
  The first \<^verbatim>\<open>if\<close> of \<open>loadFromHistory\<close>: the snapshot, if there is one. The result is
  the flag \<^verbatim>\<open>isSnapshotNeeded\<close> and the model. A conversion function changes the model
  through \<^verbatim>\<open>set\<close>; it is given by the arguments of its \<^verbatim>\<open>set\<close> calls. The version and
  the revision of a snapshot are numbers.
\<close>

definition loadSnapshot ::
  "aggregate \<Rightarrow> aggregateModel \<Rightarrow> snapshot option \<Rightarrow> (bool \<times> aggregateModel) thrown" where
  "loadSnapshot agg m snap =
     (case snap of
        None \<Rightarrow> Inr (False, m)
      | Some s \<Rightarrow>
          (if snap_version s = agg_version agg then
             (case model_set (snap_data s) m of
                Inl x \<Rightarrow> Inl x
              | Inr m' \<Rightarrow> Inr (False, setRevision (snap_revision s) m'))
           else
             (case snapshotConversions agg (snap_version s) of
                None \<Rightarrow> Inl (NoSnapshotConversion, m)
              | Some fn \<Rightarrow>
                  (case set_all (fn (snap_data s) (attributes m)) m of
                     Inl x \<Rightarrow> Inl x
                   | Inr m' \<Rightarrow> Inr (True, setRevision (snap_revision s) m')))))"

text \<open>
  One step of the \<^verbatim>\<open>reduce\<close> that finds the greatest revision among the events:
  \<^verbatim>\<open>rev > res\<close> on the revision field of the event and the greatest so far, which
  starts as the number 0. Against a number, a number is compared as a number,
  \<^verbatim>\<open>undefined\<close> is never greater, \<^verbatim>\<open>null\<close> counts as 0, \<^verbatim>\<open>false\<close> as 0 and \<^verbatim>\<open>true\<close> as 1,
  and an object is converted to a primitive value first: that throws a \<^verbatim>\<open>TypeError\<close> if
  the object has a property \<^verbatim>\<open>toString\<close> of its own (no value here is a function), and
  otherwise gives a string that is no number, which is never greater.
  The result is a number, or \<open>None\<close> for a value the model does not follow: a string is
  compared after a conversion to a number that is not modelled, and a value other than a
  number that is the greater one becomes the result as it is. From then on the model
  only tells whether a step throws.
\<close>

fun ownToString :: "jsval \<Rightarrow> bool" where
  "ownToString (JObj kvs) = (map_of kvs ''toString'' \<noteq> None)"
| "ownToString _ = False"

fun greaterRevision :: "int option \<Rightarrow> jsval \<Rightarrow> error + int option" where
  "greaterRevision (Some res) (JNum r) = Inr (Some (if r > res then r else res))"
| "greaterRevision (Some res) JUndefined = Inr (Some res)"
| "greaterRevision (Some res) JNull = Inr (if 0 > res then None else Some res)"
| "greaterRevision (Some res) (JBool b) =
     Inr (if (if b then 1 else 0) > res then None else Some res)"
| "greaterRevision (Some res) (JStr s) = Inr None"
| "greaterRevision (Some res) (JObj kvs) =
     (if ownToString (JObj kvs) then Inl NotPrimitive else Inr (Some res))"
| "greaterRevision None v = (if ownToString v then Inl NotPrimitive else Inr None)"

fun reduce_maxRevision :: "aggregate \<Rightarrow> int option \<Rightarrow> jsval list \<Rightarrow> error + int option" where
  "reduce_maxRevision agg res [] = Inr res"
| "reduce_maxRevision agg res (evt # evts) =
     (case greaterRevision res (dotty_get evt (fm_revision (def_event (definitions agg)))) of
        Inl e \<Rightarrow> Inl e
      | Inr res' \<Rightarrow> reduce_maxRevision agg res' evts)"

definition maxRevision :: "aggregate \<Rightarrow> jsval list \<Rightarrow> error + int option" where
  "maxRevision agg evts = reduce_maxRevision agg (Some 0) evts"

text \<open>
  The second \<^verbatim>\<open>if\<close>: the events. An absent list and an empty one behave alike. The
  result is the flag and the model; the model is \<open>None\<close> where the greatest revision,
  which becomes the revision of the model, is a value the model does not follow. The flag
  does not depend on it: \<open>toJSON\<close> gives the fields, not the revision.
\<close>

definition loadEvents ::
  "aggregate \<Rightarrow> bool \<Rightarrow> aggregateModel \<Rightarrow> jsval list \<Rightarrow> int
     \<Rightarrow> (bool \<times> aggregateModel option) thrown" where
  "loadEvents agg flag m evts loadingTime =
     (if length evts > 0 then
        (case maxRevision agg evts of
           Inl e \<Rightarrow> Inl (e, m)
         | Inr maxRev \<Rightarrow>
             (case snd (Aggregate_apply agg (Many evts) m) of
                Inl x \<Rightarrow> Inl x
              | Inr m' \<Rightarrow>
                  Inr (if \<not> flag
                       then (case snapshotNeed agg of
                               None \<Rightarrow> isSnapshotNeeded agg loadingTime evts (toJSON m')
                             | Some fn \<Rightarrow> fn loadingTime evts (toJSON m'))
                       else flag,
                       map_option (\<lambda>r. setRevision r m') maxRev)))
      else Inr (flag, Some m))"

definition loadFromHistory ::
  "aggregate \<Rightarrow> aggregateModel \<Rightarrow> snapshot option \<Rightarrow> jsval list \<Rightarrow> int
     \<Rightarrow> (bool \<times> aggregateModel option) thrown" where
  "loadFromHistory agg m snap evts loadingTime =
     (case loadSnapshot agg m snap of
        Inl x \<Rightarrow> Inl x
      | Inr (flag, m1) \<Rightarrow> loadEvents agg flag m1 evts loadingTime)"


section \<open>An example aggregate\<close>

text \<open>
  A small aggregate with the usual field mapping: the command \<open>enter\<close> emits the event
  \<open>entered\<close> twice, first by name and payload and then as an object that brings its own
  id; the Event definition sets the field \<open>inside\<close>.
\<close>

definition ex_command_mapping :: fieldMapping where
  "ex_command_mapping =
     \<lparr>fm_name = Some ''name'', fm_payload = Some ''payload'', fm_id = Some ''id'',
      fm_revision = None, fm_version = Some ''version'', fm_meta = Some ''meta'',
      fm_aggregateId = Some ''aggregate.id'', fm_correlationId = None,
      fm_aggregate = Some ''aggregate.name'', fm_context = Some ''context.name''\<rparr>"

definition ex_event_mapping :: fieldMapping where
  "ex_event_mapping =
     \<lparr>fm_name = Some ''name'', fm_payload = Some ''payload'', fm_id = Some ''id'',
      fm_revision = Some ''revision'', fm_version = Some ''version'', fm_meta = Some ''meta'',
      fm_aggregateId = Some ''aggregate.id'', fm_correlationId = Some ''correlationId'',
      fm_aggregate = Some ''aggregate.name'', fm_context = Some ''context.name''\<rparr>"

definition ex_entered :: eventDef where
  "ex_entered =
     \<lparr>evt_ref = 1, evt_name = ''entered'', evt_version = 0, evt_payload = ''payload'',
      evt_fn = (\<lambda>evt bag. [JObj [(''inside'', JBool True)]])\<rparr>"

definition ex_entered2 :: eventDef where
  "ex_entered2 = ex_entered\<lparr>evt_ref := 2, evt_version := 2\<rparr>"

definition ex_enter :: commandDef where
  "ex_enter =
     \<lparr>cmd_ref = 3, cmd_name = ''enter'', cmd_version = 0, cmd_payload = ''payload'',
      cmd_checkPreConditions = (\<lambda>cmd m. None),
      cmd_handle = (\<lambda>cmd bag.
        ApplyThen (JStr ''entered'') (dotty_get cmd (Some ''payload''))
          (uncaught (\<lambda>bag'.
             ApplyThen (JObj [(''name'', JStr ''entered''), (''id'', JStr ''given'')]) JUndefined
               (uncaught (\<lambda>bag''. Return)))))\<rparr>"

definition ex_default_handler :: commandHandler where
  "ex_default_handler = \<lparr>ch_ref = 0, ch_name = [], ch_version = 0\<rparr>"

definition ex_handler :: commandHandler where
  "ex_handler = \<lparr>ch_ref = 4, ch_name = ''enter'', ch_version = 1\<rparr>"

definition ex_agg :: aggregate where
  "ex_agg =
     \<lparr>agg_name = ''room'', agg_context = Some ''hotel'', agg_version = 1,
      definitions = \<lparr>def_command = ex_command_mapping, def_event = ex_event_mapping\<rparr>,
      options = \<lparr>snapshotThreshold = None, snapshotThresholdMs = None\<rparr>,
      defaultCommandPayload = [], defaultEventPayload = [], defaultPreConditionPayload = [],
      commands = [ex_enter], events = [ex_entered, ex_entered2], businessRules = [],
      preConditions = [], commandHandlers = [ex_handler],
      snapshotConversions = Map.empty, snapshotNeed = None,
      getNewId = (\<lambda>n. Inr (JStr (''id-'' @ replicate n (CHR ''i'')))),
      modelInitValues = JObj [], defaultCommandHandler = ex_default_handler\<rparr>"

definition ex_cmd :: jsval where
  "ex_cmd = JObj [(''name'', JStr ''enter''), (''id'', JStr ''c1''),
                  (''payload'', JObj [(''room'', JNum 7)])]"

definition ex_model :: aggregateModel where
  "ex_model = newAggregateModel ''a1'' (JObj [])"

definition ex_emitted :: jsval where
  "ex_emitted = JObj
     [(''name'', JStr ''entered''), (''payload'', JObj [(''room'', JNum 7)]),
      (''meta'', JUndefined), (''revision'', JNum 1),
      (''aggregate'', JObj [(''id'', JStr ''a1''), (''name'', JStr ''room'')]),
      (''correlationId'', JStr ''c1''), (''version'', JNum 2),
      (''context'', JObj [(''name'', JStr ''hotel'')])]"

definition ex_applied :: aggregateModel where
  "ex_applied =
     \<lparr>model_id = ''a1'', revision = 1, attributes = JObj [(''inside'', JBool True)],
      uncommittedEvents = [ex_emitted], settable = False\<rparr>"

text \<open>
  Three preconditions: one renames the command it is handed and passes, one passes only
  if the command it is handed still has its name, and one always fails.
\<close>

definition ex_pc_rename :: preCondition where
  "ex_pc_rename =
     \<lparr>pc_ref = 10, pc_name = ''rename'', pc_priority = 1, pc_payload = ''payload'',
      pc_check = (\<lambda>cmd m. (dotty_put cmd (Some ''name'') (JStr ''changed''), None))\<rparr>"

definition ex_pc_same :: preCondition where
  "ex_pc_same =
     \<lparr>pc_ref = 11, pc_name = ''same'', pc_priority = 5, pc_payload = ''payload'',
      pc_check = (\<lambda>cmd m. (cmd, if dotty_get cmd (Some ''name'') = JStr ''enter'' then None
                                   else Some (Failure ''renamed'')))\<rparr>"

definition ex_pc_closed :: preCondition where
  "ex_pc_closed =
     \<lparr>pc_ref = 12, pc_name = ''closed'', pc_priority = 3, pc_payload = ''payload'',
      pc_check = (\<lambda>cmd m. (cmd, Some (Failure ''closed'')))\<rparr>"

definition ex_agg_checked :: aggregate where
  "ex_agg_checked = foldl (\<lambda>a p. addPreCondition p a) ex_agg [ex_pc_same, ex_pc_rename]"

definition ex_agg_closed :: aggregate where
  "ex_agg_closed = foldl (\<lambda>a p. addPreCondition p a) ex_agg [ex_pc_same, ex_pc_closed, ex_pc_rename]"

definition ex_cmd_renamed :: jsval where
  "ex_cmd_renamed = JObj [(''name'', JStr ''changed''), (''id'', JStr ''c1''),
                          (''payload'', JObj [(''room'', JNum 7)])]"

text \<open>The second event of the example, the model after the handler and after \<open>handle\<close>.\<close>

definition ex_emitted_given :: jsval where
  "ex_emitted_given = JObj
     [(''name'', JStr ''entered''), (''id'', JStr ''given''),
      (''meta'', JUndefined), (''revision'', JNum 2),
      (''aggregate'', JObj [(''id'', JStr ''a1''), (''name'', JStr ''room'')]),
      (''correlationId'', JStr ''c1''), (''version'', JNum 2),
      (''context'', JObj [(''name'', JStr ''hotel'')])]"

definition ex_emitted_id :: jsval where
  "ex_emitted_id = JObj
     [(''name'', JStr ''entered''), (''payload'', JObj [(''room'', JNum 7)]),
      (''meta'', JUndefined), (''revision'', JNum 1),
      (''aggregate'', JObj [(''id'', JStr ''a1''), (''name'', JStr ''room'')]),
      (''correlationId'', JStr ''c1''), (''version'', JNum 2),
      (''context'', JObj [(''name'', JStr ''hotel'')]),
      (''id'', JStr ''id-'')]"

definition ex_ran :: aggregateModel where
  "ex_ran =
     \<lparr>model_id = ''a1'', revision = 2, attributes = JObj [(''inside'', JBool True)],
      uncommittedEvents = [ex_emitted, ex_emitted_given], settable = False\<rparr>"

definition ex_handled :: aggregateModel where
  "ex_handled = ex_ran\<lparr>uncommittedEvents := [ex_emitted_id, ex_emitted_given]\<rparr>"

text \<open>The example aggregate with an id generator that fails.\<close>

definition ex_agg_noid :: aggregate where
  "ex_agg_noid = idGenerator (Calling (\<lambda>n. Inl (Failure ''no id''))) ex_agg"

text \<open>
  Two snapshots, one of the example aggregate's own version and one of version 0, and
  the example aggregate with a conversion for version 0.
\<close>

definition ex_snapshot :: snapshot where
  "ex_snapshot = \<lparr>snap_version = 1, snap_revision = 7, snap_data = JObj [(''inside'', JBool True)]\<rparr>"

definition ex_snapshot_old :: snapshot where
  "ex_snapshot_old = \<lparr>snap_version = 0, snap_revision = 4, snap_data = JObj [(''in'', JBool True)]\<rparr>"

definition ex_conversion :: "jsval \<Rightarrow> jsval \<Rightarrow> jsval list" where
  "ex_conversion data bag = [JObj [(''inside'', dotty_get data (Some ''in''))]]"

definition ex_agg_conv :: aggregate where
  "ex_agg_conv = defineSnapshotConversion 0 ex_conversion ex_agg"

text \<open>
  A second handler for the command \<open>enter\<close> in version 1, registered after the first.
\<close>

definition ex_handler_late :: commandHandler where
  "ex_handler_late = \<lparr>ch_ref = 5, ch_name = ''enter'', ch_version = 1\<rparr>"

definition ex_agg_handlers :: aggregate where
  "ex_agg_handlers = addCommandHandler ex_handler_late ex_agg"

text \<open>
  More commands. The handler of \<open>odd\<close> hands the capability the number 5, the handler
  of \<open>zero\<close> an event that brings the id 0, and the handler of \<open>once\<close> the name \<open>entered\<close>.
  The handler of \<open>retry\<close> catches what the capability throws for \<open>left\<close>, an event that has
  no definition, and then emits \<open>entered\<close>.
\<close>

definition ex_odd :: commandDef where
  "ex_odd =
     \<lparr>cmd_ref = 6, cmd_name = ''odd'', cmd_version = 0, cmd_payload = ''payload'',
      cmd_checkPreConditions = (\<lambda>cmd m. None),
      cmd_handle = (\<lambda>cmd bag. ApplyThen (JNum 5) JUndefined (uncaught (\<lambda>bag'. Return)))\<rparr>"

definition ex_zero :: commandDef where
  "ex_zero =
     \<lparr>cmd_ref = 7, cmd_name = ''zero'', cmd_version = 0, cmd_payload = ''payload'',
      cmd_checkPreConditions = (\<lambda>cmd m. None),
      cmd_handle = (\<lambda>cmd bag.
        ApplyThen (JObj [(''name'', JStr ''entered''), (''id'', JNum 0)]) JUndefined
          (uncaught (\<lambda>bag'. Return)))\<rparr>"

definition ex_once :: commandDef where
  "ex_once =
     \<lparr>cmd_ref = 8, cmd_name = ''once'', cmd_version = 0, cmd_payload = ''payload'',
      cmd_checkPreConditions = (\<lambda>cmd m. None),
      cmd_handle = (\<lambda>cmd bag. ApplyThen (JStr ''entered'') JUndefined (uncaught (\<lambda>bag'. Return)))\<rparr>"

definition ex_retry :: commandDef where
  "ex_retry =
     \<lparr>cmd_ref = 9, cmd_name = ''retry'', cmd_version = 0, cmd_payload = ''payload'',
      cmd_checkPreConditions = (\<lambda>cmd m. None),
      cmd_handle = (\<lambda>cmd bag.
        ApplyThen (JStr ''left'') JUndefined
          (\<lambda>caught. ApplyThen (JStr ''entered'') JUndefined (uncaught (\<lambda>bag'. Return))))\<rparr>"

definition ex_agg_more :: aggregate where
  "ex_agg_more = foldl (\<lambda>a c. addCommand c a) ex_agg [ex_odd, ex_zero, ex_once, ex_retry]"

definition ex_cmd_odd :: jsval where
  "ex_cmd_odd = JObj [(''name'', JStr ''odd''), (''id'', JStr ''c2'')]"

definition ex_cmd_zero :: jsval where
  "ex_cmd_zero = JObj [(''name'', JStr ''zero''), (''id'', JStr ''c3'')]"

definition ex_cmd_once :: jsval where
  "ex_cmd_once = JObj [(''name'', JStr ''once''), (''id'', JStr ''c4''), (''meta'', JStr ''m'')]"

definition ex_cmd_retry :: jsval where
  "ex_cmd_retry = JObj [(''name'', JStr ''retry''), (''id'', JStr ''c5'')]"

text \<open>What the handler of \<open>odd\<close> leaves, and what \<open>handle\<close> leaves then.\<close>

definition ex_odd_handled :: aggregateModel where
  "ex_odd_handled =
     \<lparr>model_id = ''a1'', revision = 1, attributes = JObj [],
      uncommittedEvents = [JUndefined], settable = False\<rparr>"

text \<open>The event of \<open>zero\<close> as the capability emits it, and as \<open>handle\<close> leaves it.\<close>

definition ex_emitted_zero :: jsval where
  "ex_emitted_zero = JObj
     [(''name'', JStr ''entered''), (''id'', JNum 0),
      (''meta'', JUndefined), (''revision'', JNum 1),
      (''aggregate'', JObj [(''id'', JStr ''a1''), (''name'', JStr ''room'')]),
      (''correlationId'', JStr ''c3''), (''version'', JNum 2),
      (''context'', JObj [(''name'', JStr ''hotel'')])]"

definition ex_emitted_zero_id :: jsval where
  "ex_emitted_zero_id = JObj
     [(''name'', JStr ''entered''), (''id'', JStr ''id-''),
      (''meta'', JUndefined), (''revision'', JNum 1),
      (''aggregate'', JObj [(''id'', JStr ''a1''), (''name'', JStr ''room'')]),
      (''correlationId'', JStr ''c3''), (''version'', JNum 2),
      (''context'', JObj [(''name'', JStr ''hotel'')])]"

definition ex_zero_ran :: aggregateModel where
  "ex_zero_ran =
     \<lparr>model_id = ''a1'', revision = 1, attributes = JObj [(''inside'', JBool True)],
      uncommittedEvents = [ex_emitted_zero], settable = False\<rparr>"

definition ex_zero_handled :: aggregateModel where
  "ex_zero_handled = ex_zero_ran\<lparr>uncommittedEvents := [ex_emitted_zero_id]\<rparr>"

text \<open>
  The aggregate with the revision and the version of an event mapped below its meta
  data, which the command \<open>once\<close> above gives as a string; and the aggregate with the
  revision mapped where the aggregate id goes and the version mapped below the name of
  the context. In both, the capability emits the same event for \<open>once\<close>.
\<close>

definition ex_agg_nested :: aggregate where
  "ex_agg_nested =
     ex_agg_more\<lparr>definitions :=
       \<lparr>def_command = ex_command_mapping,
        def_event = ex_event_mapping\<lparr>fm_revision := Some ''meta.revision'',
                                      fm_version := Some ''meta.version''\<rparr>\<rparr>\<rparr>"

definition ex_agg_overlap :: aggregate where
  "ex_agg_overlap =
     ex_agg_more\<lparr>definitions :=
       \<lparr>def_command = ex_command_mapping,
        def_event = ex_event_mapping\<lparr>fm_revision := Some ''aggregate.id'',
                                      fm_version := Some ''context.name.v''\<rparr>\<rparr>\<rparr>"

definition ex_emitted_bare :: jsval where
  "ex_emitted_bare = JObj
     [(''name'', JStr ''entered''), (''meta'', JStr ''m''),
      (''aggregate'', JObj [(''id'', JStr ''a1''), (''name'', JStr ''room'')]),
      (''correlationId'', JStr ''c4''),
      (''context'', JObj [(''name'', JStr ''hotel'')])]"

definition ex_once_ran :: aggregateModel where
  "ex_once_ran =
     \<lparr>model_id = ''a1'', revision = 1, attributes = JObj [(''inside'', JBool True)],
      uncommittedEvents = [ex_emitted_bare], settable = False\<rparr>"

text \<open>
  The event \<open>left\<close> as the capability appends it before its replay throws, the event
  \<open>entered\<close> emitted after that, and the model the handler of \<open>retry\<close> leaves.
\<close>

definition ex_emitted_left :: jsval where
  "ex_emitted_left = JObj
     [(''name'', JStr ''left''), (''meta'', JUndefined), (''revision'', JNum 1),
      (''aggregate'', JObj [(''id'', JStr ''a1''), (''name'', JStr ''room'')]),
      (''correlationId'', JStr ''c5''), (''version'', JNum 0),
      (''context'', JObj [(''name'', JStr ''hotel'')])]"


definition ex_left_thrown :: aggregateModel where
  "ex_left_thrown =
     \<lparr>model_id = ''a1'', revision = 1, attributes = JObj [],
      uncommittedEvents = [ex_emitted_left], settable = True\<rparr>"






section \<open>Properties\<close>

subsection \<open>Dotted paths\<close>

lemma js_prop_update:
  "js_prop (AList.update k v kvs) k' = (if k' = k then v else js_prop kvs k')"
  by (simp add: js_prop_def update_conv')

lemma js_prop_Nil: "js_prop [] k = JUndefined"
  by (simp add: js_prop_def)


lemma get_path_empty: "get_path (JObj []) p = JUndefined"
  by (cases p) (simp_all add: js_prop_Nil)

lemma exists_path_empty: "exists_path (JObj []) p = False"
  by (cases p) (simp_all add: js_prop_Nil)

lemma writable_path_empty: "p \<noteq> [] \<Longrightarrow> writable_path (JObj []) p"
  by (induction p) (simp_all add: js_prop_Nil)

lemma split_dot_not_Nil: "split_dot s \<noteq> []"
  by (induction s) (auto split: list.splits)

text \<open>A value written through a writable path is the value read back through it.\<close>

lemma get_put_same: "writable_path obj p \<Longrightarrow> get_path (put_path obj p v) p = v"
proof (induction obj p v rule: put_path.induct)
  case (1 kvs k ks v)
  show ?case
  proof (cases "ks = []")
    case True
    then show ?thesis by (simp add: js_prop_update)
  next
    case False
    then show ?thesis using 1
      by (cases "js_prop kvs k") (simp_all add: js_prop_update)
  qed
qed simp_all


text \<open>A write through one path leaves every diverging path as it was.\<close>

lemma get_put_diverge: "diverge p q \<Longrightarrow> get_path (put_path obj p v) q = get_path obj q"
proof (induction p q arbitrary: obj rule: diverge.induct)
  case (1 a as b bs)
  show ?case
  proof (cases obj)
    case (JObj kvs)
    show ?thesis
    proof (cases "a = b")
      case False
      then show ?thesis using JObj
        by (cases "js_prop kvs a") (simp_all add: js_prop_update)
    next
      case True
      with 1 have d: "diverge as bs" and ne: "as \<noteq> []" "bs \<noteq> []" by auto
      show ?thesis using True JObj ne 1(1)[OF d]
        by (cases "js_prop kvs b") (simp_all add: js_prop_update get_path_empty)
    qed
  qed simp_all
qed simp_all

lemma exists_put_diverge:
  "diverge p q \<Longrightarrow> exists_path (put_path obj p v) q = exists_path obj q"
proof (induction p q arbitrary: obj rule: diverge.induct)
  case (1 a as b bs)
  show ?case
  proof (cases obj)
    case (JObj kvs)
    show ?thesis
    proof (cases "a = b")
      case False
      then show ?thesis using JObj
        by (cases "js_prop kvs a") (simp_all add: js_prop_update update_conv')
    next
      case True
      with 1 have d: "diverge as bs" and ne: "as \<noteq> []" "bs \<noteq> []" by auto
      show ?thesis using True JObj ne 1(1)[OF d]
        by (cases "js_prop kvs b") (simp_all add: js_prop_update exists_path_empty)
    qed
  qed simp_all
qed simp_all


lemma dotty_get_put_same:
  "dotty_writable obj p \<Longrightarrow> dotty_get (dotty_put obj p v) p = v"
  by (cases p) (simp_all add: dotty_get_def dotty_put_def dotty_writable_def get_put_same)


lemma dotty_get_put_other:
  "independent p q \<Longrightarrow> dotty_get (dotty_put obj p v) q = dotty_get obj q"
  by (cases p; cases q) (simp_all add: dotty_get_def dotty_put_def independent_def get_put_diverge)

lemma dotty_exists_put_other:
  "independent p q \<Longrightarrow> dotty_exists (dotty_put obj p v) q = dotty_exists obj q"
  by (cases p; cases q) (simp_all add: dotty_exists_def dotty_put_def independent_def exists_put_diverge)


lemma diverge_sym: "diverge p q = diverge q p"
  by (induction p q rule: diverge.induct) auto

lemma independent_sym: "independent p q = independent q p"
  by (cases p; cases q) (simp_all add: independent_def diverge_sym)

subsection \<open>Snapshot policy\<close>

text \<open>
  C2, as stated, at an explicit input: the millisecond threshold is set, to 0, and the
  loading time 5 reaches it, yet the default policy answers from the event count and
  says no.
\<close>

theorem C2_threshold_zero_counterexample:
  "snapshotThresholdMs (options (ex_agg\<lparr>options := \<lparr>snapshotThreshold = None, snapshotThresholdMs = Some 0\<rparr>\<rparr>)) = Some 0
   \<and> (0::int) \<le> 5
   \<and> \<not> isSnapshotNeeded (ex_agg\<lparr>options := \<lparr>snapshotThreshold = None, snapshotThresholdMs = Some 0\<rparr>\<rparr>) 5 [] (JObj [])"
  by (simp add: isSnapshotNeeded_def)

text \<open>
  C2, amended: an option counts as configured when its value is not 0. With the
  millisecond threshold configured the default policy is true exactly when the loading
  time reaches it; otherwise it is true exactly when the number of events reaches the
  count threshold, which is the option \<open>snapshotThreshold\<close> when that is configured and
  100 when it is not. With no options, 150 events give true and fewer than 100 give
  false.
\<close>

theorem C2_isSnapshotNeeded_default:
  "(\<forall>ms. snapshotThresholdMs (options agg) = Some ms \<and> ms \<noteq> 0 \<longrightarrow>
      isSnapshotNeeded agg loadingTime evts stateData = (loadingTime \<ge> ms))
   \<and> (\<not> configured (snapshotThresholdMs (options agg)) \<longrightarrow>
        (\<forall>t. snapshotThreshold (options agg) = Some t \<and> t \<noteq> 0 \<longrightarrow>
           isSnapshotNeeded agg loadingTime evts stateData = (int (length evts) \<ge> t))
        \<and> (\<not> configured (snapshotThreshold (options agg)) \<longrightarrow>
             isSnapshotNeeded agg loadingTime evts stateData = (length evts \<ge> 100)))
   \<and> (snapshotThresholdMs (options agg) = None \<and> snapshotThreshold (options agg) = None \<longrightarrow>
        (length evts = 150 \<longrightarrow> isSnapshotNeeded agg loadingTime evts stateData)
        \<and> (length evts < 100 \<longrightarrow> \<not> isSnapshotNeeded agg loadingTime evts stateData))"
proof -
  have ms: "\<And>ms. snapshotThresholdMs (options agg) = Some ms \<Longrightarrow> ms \<noteq> 0 \<Longrightarrow>
      isSnapshotNeeded agg loadingTime evts stateData = (loadingTime \<ge> ms)"
    by (simp add: isSnapshotNeeded_def)
  have cnt: "\<And>t. \<not> configured (snapshotThresholdMs (options agg)) \<Longrightarrow>
      snapshotThreshold (options agg) = Some t \<Longrightarrow> t \<noteq> 0 \<Longrightarrow>
      isSnapshotNeeded agg loadingTime evts stateData = (int (length evts) \<ge> t)"
    by (cases "snapshotThresholdMs (options agg)") (simp_all add: isSnapshotNeeded_def)
  have dflt: "\<not> configured (snapshotThresholdMs (options agg)) \<Longrightarrow>
      \<not> configured (snapshotThreshold (options agg)) \<Longrightarrow>
      isSnapshotNeeded agg loadingTime evts stateData = (length evts \<ge> 100)"
    by (cases "snapshotThresholdMs (options agg)"; cases "snapshotThreshold (options agg)")
       (auto simp add: isSnapshotNeeded_def)
  have none: "snapshotThresholdMs (options agg) = None \<Longrightarrow> snapshotThreshold (options agg) = None \<Longrightarrow>
      isSnapshotNeeded agg loadingTime evts stateData = (length evts \<ge> 100)"
    using dflt by simp
  show ?thesis
    using ms cnt dflt none by auto
qed

theorem C2_isSnapshotNeeded_default_witness:
  "isSnapshotNeeded (ex_agg\<lparr>options := \<lparr>snapshotThreshold = None, snapshotThresholdMs = Some 50\<rparr>\<rparr>) 60 [] (JObj [])
   \<and> \<not> isSnapshotNeeded (ex_agg\<lparr>options := \<lparr>snapshotThreshold = None, snapshotThresholdMs = Some 50\<rparr>\<rparr>) 40 [] (JObj [])
   \<and> isSnapshotNeeded (ex_agg\<lparr>options := \<lparr>snapshotThreshold = Some 2, snapshotThresholdMs = None\<rparr>\<rparr>) 0 [JNull, JNull] (JObj [])
   \<and> isSnapshotNeeded ex_agg 0 (replicate 150 JNull) (JObj [])
   \<and> \<not> isSnapshotNeeded ex_agg 0 (replicate 99 JNull) (JObj [])"
  using C2_isSnapshotNeeded_default
          [of "ex_agg\<lparr>options := \<lparr>snapshotThreshold = None, snapshotThresholdMs = Some 50\<rparr>\<rparr>" 60 "[]" "JObj []"]
        C2_isSnapshotNeeded_default
          [of "ex_agg\<lparr>options := \<lparr>snapshotThreshold = None, snapshotThresholdMs = Some 50\<rparr>\<rparr>" 40 "[]" "JObj []"]
        C2_isSnapshotNeeded_default
          [of "ex_agg\<lparr>options := \<lparr>snapshotThreshold = Some 2, snapshotThresholdMs = None\<rparr>\<rparr>" 0 "[JNull, JNull]" "JObj []"]
        C2_isSnapshotNeeded_default [of ex_agg 0 "replicate 150 JNull" "JObj []"]
        C2_isSnapshotNeeded_default [of ex_agg 0 "replicate 99 JNull" "JObj []"]
  by (simp add: ex_agg_def)

subsection \<open>Looking up a command handler\<close>

lemma find_first_match: "find P xs = Some x \<Longrightarrow> x \<in> set xs \<and> P x"
  by (induction xs) (auto split: if_splits)

text \<open>
  C5, as stated, at an explicit input: for the empty name \<open>getCommandHandler\<close> fails,
  with the error of its first guard.
\<close>

theorem C5_empty_name_counterexample:
  "getCommandHandler ex_agg (JStr []) (JNum 0) = Inl InvalidName"
  by (simp add: getCommandHandler_def)

text \<open>
  C5, amended: for a name that is a non-empty string and a version that is a number
  or falsy (then 0), \<open>getCommandHandler\<close> does not fail: it returns the registered
  handler whose name and version match when there is one, and the Default Command
  Handler when there is none. For any other name it fails with the error of an invalid
  name, and for a truthy version that is no number with the error of an invalid version.
  The statement also says which handler is returned when several of the registered ones
  match: the one at a position of the list before which no handler matches, that is, the
  one registered first.
\<close>

theorem C5_getCommandHandler:
  "((\<exists>s. name = JStr s \<and> s \<noteq> []) \<and> (isNumber version \<or> \<not> truthy version) \<longrightarrow>
      (\<exists>hnd. getCommandHandler agg name version = Inr hnd
         \<and> ((\<exists>g \<in> set (commandHandlers agg).
                 JStr (ch_name g) = name \<and> JNum (int (ch_version g)) = (if truthy version then version else JNum 0)) \<longrightarrow>
              hnd \<in> set (commandHandlers agg) \<and> JStr (ch_name hnd) = name
              \<and> JNum (int (ch_version hnd)) = (if truthy version then version else JNum 0)
              \<and> (\<exists>i < length (commandHandlers agg).
                    hnd = commandHandlers agg ! i
                    \<and> (\<forall>j < i. \<not> (JStr (ch_name (commandHandlers agg ! j)) = name
                                    \<and> JNum (int (ch_version (commandHandlers agg ! j)))
                                        = (if truthy version then version else JNum 0)))))
         \<and> ((\<forall>g \<in> set (commandHandlers agg).
                 \<not> (JStr (ch_name g) = name \<and> JNum (int (ch_version g)) = (if truthy version then version else JNum 0))) \<longrightarrow>
              hnd = defaultCommandHandler agg)))
   \<and> (\<not> (\<exists>s. name = JStr s \<and> s \<noteq> []) \<longrightarrow> getCommandHandler agg name version = Inl InvalidName)
   \<and> ((\<exists>s. name = JStr s \<and> s \<noteq> []) \<and> truthy version \<and> \<not> isNumber version \<longrightarrow>
        getCommandHandler agg name version = Inl InvalidVersion)"
proof -
  let ?v = "if truthy version then version else JNum 0"
  let ?P = "\<lambda>g. JStr (ch_name g) = name \<and> JNum (int (ch_version g)) = ?v"
  let ?hs = "commandHandlers agg"
  have bad: "\<not> (\<exists>s. name = JStr s \<and> s \<noteq> []) \<Longrightarrow> getCommandHandler agg name version = Inl InvalidName"
    by (cases name) (simp_all add: getCommandHandler_def)
  have badv: "(\<exists>s. name = JStr s \<and> s \<noteq> []) \<Longrightarrow> truthy version \<Longrightarrow> \<not> isNumber version \<Longrightarrow>
        getCommandHandler agg name version = Inl InvalidVersion"
    by (auto simp add: getCommandHandler_def)
  have nv: "isNumber version \<or> \<not> truthy version \<Longrightarrow> isNumber ?v"
    by auto
  have ok: "(\<exists>s. name = JStr s \<and> s \<noteq> []) \<Longrightarrow> isNumber version \<or> \<not> truthy version \<Longrightarrow>
     getCommandHandler agg name version =
       Inr (case find ?P ?hs of Some h \<Rightarrow> h | None \<Rightarrow> defaultCommandHandler agg)"
    using nv by (auto simp add: getCommandHandler_def Let_def split: option.splits)
  have main: "(\<exists>s. name = JStr s \<and> s \<noteq> []) \<and> (isNumber version \<or> \<not> truthy version) \<Longrightarrow>
      (\<exists>hnd. getCommandHandler agg name version = Inr hnd
         \<and> ((\<exists>g \<in> set ?hs. ?P g) \<longrightarrow>
               hnd \<in> set ?hs \<and> ?P hnd
               \<and> (\<exists>i < length ?hs. hnd = ?hs ! i \<and> (\<forall>j < i. \<not> ?P (?hs ! j))))
         \<and> ((\<forall>g \<in> set ?hs. \<not> ?P g) \<longrightarrow> hnd = defaultCommandHandler agg))"
  proof -
    assume h: "(\<exists>s. name = JStr s \<and> s \<noteq> []) \<and> (isNumber version \<or> \<not> truthy version)"
    show ?thesis
    proof (cases "find ?P ?hs")
      case None
      then have "\<forall>g \<in> set ?hs. \<not> ?P g"
        by (simp only: find_None_iff) blast
      moreover have "getCommandHandler agg name version = Inr (defaultCommandHandler agg)"
        using ok h None by simp
      ultimately show ?thesis by blast
    next
      case (Some x)
      then have m: "x \<in> set ?hs \<and> ?P x"
        by (rule find_first_match)
      from Some obtain i where i: "i < length ?hs" "x = ?hs ! i" "\<forall>j < i. \<not> ?P (?hs ! j)"
        unfolding find_Some_iff by blast
      have "getCommandHandler agg name version = Inr x"
        using ok h Some by simp
      with m i show ?thesis by blast
    qed
  qed
  show ?thesis
    using bad badv main by blast
qed

theorem C5_getCommandHandler_witness:
  "getCommandHandler ex_agg_handlers (JStr ''enter'') (JNum 1) = Inr ex_handler
   \<and> commandHandlers ex_agg_handlers = [ex_handler, ex_handler_late]
   \<and> ch_name ex_handler_late = ''enter'' \<and> ch_version ex_handler_late = 1
   \<and> getCommandHandler ex_agg (JStr ''leave'') JUndefined = Inr ex_default_handler
   \<and> getCommandHandler ex_agg JNull (JNum 1) = Inl InvalidName
   \<and> getCommandHandler ex_agg (JStr ''enter'') (JStr ''1'') = Inl InvalidVersion"
proof -
  let ?hs = "commandHandlers ex_agg_handlers"
  let ?P = "\<lambda>g. JStr (ch_name g) = JStr ''enter'' \<and> JNum (int (ch_version g)) = JNum 1"
  have hs: "?hs = [ex_handler, ex_handler_late]" by code_simp
  have late: "ch_name ex_handler_late = ''enter''" "ch_version ex_handler_late = 1"
    by (simp_all add: ex_handler_late_def)
  have p0: "?P (?hs ! 0)" by (simp add: hs ex_handler_def)
  have ex: "\<exists>g \<in> set ?hs. ?P g" by (simp add: hs ex_handler_def)
  from C5_getCommandHandler [of "JStr ''enter''" "JNum 1" ex_agg_handlers] ex
  obtain hnd i where r: "getCommandHandler ex_agg_handlers (JStr ''enter'') (JNum 1) = Inr hnd"
    and i: "hnd = ?hs ! i" "\<forall>j < i. \<not> ?P (?hs ! j)"
    by auto
  have "i = 0"
  proof (rule ccontr)
    assume "i \<noteq> 0"
    then have "0 < i" by simp
    with i(2) p0 show False by blast
  qed
  with i(1) hs have "hnd = ex_handler" by simp
  with r have 1: "getCommandHandler ex_agg_handlers (JStr ''enter'') (JNum 1) = Inr ex_handler"
    by simp
  from C5_getCommandHandler [of "JStr ''leave''" JUndefined ex_agg]
  have 2: "getCommandHandler ex_agg (JStr ''leave'') JUndefined = Inr ex_default_handler"
    by (auto simp add: ex_agg_def ex_handler_def)
  from C5_getCommandHandler [of JNull "JNum 1" ex_agg]
  have 3: "getCommandHandler ex_agg JNull (JNum 1) = Inl InvalidName"
    by simp
  from C5_getCommandHandler [of "JStr ''enter''" "JStr ''1''" ex_agg]
  have 4: "getCommandHandler ex_agg (JStr ''enter'') (JStr ''1'') = Inl InvalidVersion"
    by simp
  show ?thesis using 1 2 3 4 hs late by simp
qed

subsection \<open>Replay of no events\<close>

text \<open>
  C10: \<open>apply\<close> with \<^verbatim>\<open>null\<close> or \<^verbatim>\<open>undefined\<close> for the events returns normally, calls no
  Event definition and leaves the model as it is, whatever the aggregate and the model.
\<close>

theorem C10_apply_nothing:
  "Aggregate_apply agg (One JNull) m = ([], Inr m)
   \<and> Aggregate_apply agg (One JUndefined) m = ([], Inr m)"
  by (simp add: Aggregate_apply_def)

subsection \<open>What replay and the apply capability leave alone\<close>

lemma model_set_frame:
  "uncommittedEvents (modelAfter (model_set d m)) = uncommittedEvents m
   \<and> revision (modelAfter (model_set d m)) = revision m
   \<and> model_id (modelAfter (model_set d m)) = model_id m
   \<and> settable (modelAfter (model_set d m)) = settable m"
  by (simp add: model_set_def)

lemma set_all_frame:
  "uncommittedEvents (modelAfter (set_all ds m)) = uncommittedEvents m
   \<and> revision (modelAfter (set_all ds m)) = revision m
   \<and> model_id (modelAfter (set_all ds m)) = model_id m
   \<and> settable (modelAfter (set_all ds m)) = settable m"
proof (induction ds arbitrary: m)
  case Nil
  then show ?case by simp
next
  case (Cons d ds)
  show ?case
  proof (cases "model_set d m")
    case (Inl x)
    then show ?thesis using model_set_frame[of d m] by simp
  next
    case (Inr m1)
    then show ?thesis using model_set_frame[of d m] Cons.IH[of m1] by simp
  qed
qed

lemma set_all_error:
  "thrownBy (set_all ds m) = None \<or> thrownBy (set_all ds m) = Some SetNotAllowed"
proof (induction ds arbitrary: m)
  case Nil
  then show ?case by simp
next
  case (Cons d ds)
  show ?case
  proof (cases "model_set d m")
    case (Inl x)
    then show ?thesis by (auto simp add: model_set_def split: if_splits)
  next
    case (Inr m1)
    then show ?thesis using Cons.IH[of m1] by simp
  qed
qed

lemma getEvent_error:
  "getEvent agg n v = Inl e \<Longrightarrow> e = InvalidName \<or> e = InvalidVersion"
  by (auto simp add: getEvent_def Let_def split: if_splits)

lemma forEach_apply_frame:
  "uncommittedEvents (modelAfter (snd (forEach_apply agg es m))) = uncommittedEvents m
   \<and> revision (modelAfter (snd (forEach_apply agg es m))) = revision m
   \<and> model_id (modelAfter (snd (forEach_apply agg es m))) = model_id m
   \<and> settable (modelAfter (snd (forEach_apply agg es m))) = settable m
   \<and> thrownBy (snd (forEach_apply agg es m)) \<noteq> Some NoContext"
proof (induction es arbitrary: m)
  case Nil
  then show ?case by simp
next
  case (Cons evt es)
  let ?name = "dotty_get evt (fm_name (def_event (definitions agg)))"
  let ?version = "if mapped (fm_version (def_event (definitions agg)))
                  then dotty_get evt (fm_version (def_event (definitions agg))) else JNum 0"
  show ?case
  proof (cases "truthy ?name")
    case False
    then show ?thesis by simp
  next
    case True
    show ?thesis
    proof (cases "getEvent agg ?name ?version")
      case (Inl e)
      then show ?thesis using True getEvent_error[OF Inl] by (auto simp add: Let_def)
    next
      case (Inr found)
      show ?thesis
      proof (cases found)
        case None
        then show ?thesis using True Inr by (simp add: Let_def)
      next
        case (Some event)
        note fr = set_all_frame[of "evt_fn event evt (attributes m)" m]
        note er = set_all_error[of "evt_fn event evt (attributes m)" m]
        show ?thesis
        proof (cases "Event_apply event evt m")
          case (Inl x)
          then show ?thesis using True Inr Some fr er
            by (auto simp add: Let_def Event_apply_def)
        next
          case (Inr m1)
          obtain calls r where rec: "forEach_apply agg es m1 = (calls, r)"
            by (cases "forEach_apply agg es m1")
          from Cons.IH[of m1] rec have
            "uncommittedEvents (modelAfter r) = uncommittedEvents m1
             \<and> revision (modelAfter r) = revision m1
             \<and> model_id (modelAfter r) = model_id m1
             \<and> settable (modelAfter r) = settable m1
             \<and> thrownBy r \<noteq> Some NoContext"
            by simp
          then show ?thesis
            using True \<open>getEvent agg ?name ?version = Inr found\<close> Some Inr rec fr
            by (simp add: Let_def Event_apply_def)
        qed
      qed
    qed
  qed
qed

lemma Aggregate_apply_frame:
  "uncommittedEvents (modelAfter (snd (Aggregate_apply agg evts m))) = uncommittedEvents m
   \<and> revision (modelAfter (snd (Aggregate_apply agg evts m))) = revision m
   \<and> model_id (modelAfter (snd (Aggregate_apply agg evts m))) = model_id m
   \<and> settable (modelAfter (snd (Aggregate_apply agg evts m))) = settable m
   \<and> thrownBy (snd (Aggregate_apply agg evts m)) \<noteq> Some NoContext"
proof (cases evts)
  case (One evt)
  show ?thesis
  proof (cases "truthy evt")
    case True
    then show ?thesis using One forEach_apply_frame[of agg "[evt]" m]
      by (simp add: Aggregate_apply_def)
  next
    case False
    then show ?thesis using One by (simp add: Aggregate_apply_def)
  qed
next
  case (Many es)
  then show ?thesis using forEach_apply_frame[of agg es m]
    by (simp add: Aggregate_apply_def)
qed

lemma stampContext_error: "stampContext agg cmd e = Inl x \<Longrightarrow> x = NoContext"
  by (auto simp add: stampContext_def Let_def split: if_splits option.splits)


lemma applyHelper_emitted:
  assumes "stampContext agg cmd (stampAggregate agg cmd
             (stampVersion agg (constructedEvent agg m cmd name payload))) = Inr evt"
  shows "uncommittedEvents (modelAfter (applyHelper agg m cmd name payload))
           = uncommittedEvents m @ [evt]
     \<and> thrownBy (applyHelper agg m cmd name payload) \<noteq> Some NoContext"
proof -
  let ?m2 = "setRevision (js_plus (getRevision (m\<lparr>settable := True\<rparr>)) 1) (m\<lparr>settable := True\<rparr>)"
  let ?r = "snd (Aggregate_apply agg (One evt) (addUncommittedEvent evt ?m2))"
  have a: "applyHelper agg m cmd name payload
             = (case ?r of Inl x \<Rightarrow> Inl x | Inr m3 \<Rightarrow> Inr (m3\<lparr>settable := False\<rparr>))"
    using assms by (simp add: applyHelper_def constructedEvent_def Let_def getRevision_def setRevision_def)
  note fr = Aggregate_apply_frame[of agg "One evt" "addUncommittedEvent evt ?m2"]
  show ?thesis
    using fr unfolding a
    by (cases ?r) (simp_all add: addUncommittedEvent_def setRevision_def getRevision_def)
qed

lemma applyHelper_noContext:
  assumes "stampContext agg cmd (stampAggregate agg cmd
             (stampVersion agg (constructedEvent agg m cmd name payload))) = Inl e"
  shows "thrownBy (applyHelper agg m cmd name payload) = Some NoContext
     \<and> uncommittedEvents (modelAfter (applyHelper agg m cmd name payload)) = uncommittedEvents m"
proof -
  let ?m2 = "setRevision (js_plus (getRevision (m\<lparr>settable := True\<rparr>)) 1) (m\<lparr>settable := True\<rparr>)"
  have "applyHelper agg m cmd name payload = Inl (e, ?m2)"
    using assms by (simp add: applyHelper_def constructedEvent_def Let_def getRevision_def setRevision_def)
  then show ?thesis using stampContext_error[OF assms] by (simp add: setRevision_def)
qed


lemma stampAggregate_get:
  "independent (fm_aggregate (def_event (definitions agg))) q \<Longrightarrow>
     dotty_get (stampAggregate agg cmd e) q = dotty_get e q"
  by (simp add: stampAggregate_def Let_def dotty_get_put_other)

lemma stampContext_get:
  "stampContext agg cmd e = Inr e' \<Longrightarrow> independent (fm_context (def_event (definitions agg))) q \<Longrightarrow>
     dotty_get e' q = dotty_get e q"
  by (auto simp add: stampContext_def Let_def dotty_get_put_other split: if_splits option.splits)

subsection \<open>The version of an emitted event\<close>

lemma Max_insert_max:
  "finite S \<Longrightarrow> Max (insert (max a v) S) = Max (insert a (insert v S))" for a v :: nat
  by (cases "S = {}") (simp_all add: max.assoc)

lemma foldl_max_version:
  "foldl (\<lambda>res e. if JStr (evt_name e) \<noteq> n then res
                     else (let v = evt_version e in if v > res then v else res)) a xs
   = Max (insert a (evt_version ` {e \<in> set xs. JStr (evt_name e) = n}))"
proof (induction xs arbitrary: a)
  case Nil
  then show ?case by simp
next
  case (Cons x xs)
  define S where "S = evt_version ` {e \<in> set xs. JStr (evt_name e) = n}"
  have fin: "finite S" by (simp add: S_def)
  show ?case
  proof (cases "JStr (evt_name x) = n")
    case False
    then have "{e \<in> set (x # xs). JStr (evt_name e) = n} = {e \<in> set xs. JStr (evt_name e) = n}"
      by auto
    then show ?thesis using False Cons.IH[of a] by simp
  next
    case True
    then have s: "evt_version ` {e \<in> set (x # xs). JStr (evt_name e) = n} = insert (evt_version x) S"
      by (auto simp: S_def)
    have m: "(if evt_version x > a then evt_version x else a) = max a (evt_version x)"
      by (simp add: max_def)
    have "foldl (\<lambda>res e. if JStr (evt_name e) \<noteq> n then res
                     else (let v = evt_version e in if v > res then v else res)) a (x # xs)
          = Max (insert (max a (evt_version x)) S)"
      using True Cons.IH[of "max a (evt_version x)"] m by (simp add: Let_def S_def)
    also have "\<dots> = Max (insert a (insert (evt_version x) S))"
      using fin by (rule Max_insert_max)
    finally show ?thesis by (simp only: s)
  qed
qed

lemma maxVersion_Max:
  "maxVersion agg n = Max (insert 0 (evt_version ` {e \<in> set (events agg). JStr (evt_name e) = n}))"
  unfolding maxVersion_def by (rule foldl_max_version)

lemma maxVersion_none:
  assumes "\<forall>e \<in> set (events agg). JStr (evt_name e) \<noteq> n"
  shows "maxVersion agg n = 0"
proof -
  define S where "S = {e \<in> set (events agg). JStr (evt_name e) = n}"
  have "S = {}" using assms by (auto simp: S_def)
  moreover have "maxVersion agg n = Max (insert 0 (evt_version ` S))"
    by (simp only: maxVersion_Max S_def)
  ultimately show ?thesis by simp
qed

text \<open>
  C8, as stated, at explicit inputs. In the first aggregate the version of an event is
  mapped below its meta data, and the command's meta data, which the event takes over,
  is a string; in the second the version is mapped below the name of the context, which
  is stamped after it. In both an event version mapping is configured, the capability
  emits the event \<open>entered\<close> and returns, the constructed event has no value at the
  version path and the greatest version registered for \<open>entered\<close> is 2: yet the emitted
  event has no value at the version path.
\<close>

theorem C8_version_not_stored_counterexample:
  "mapped (fm_version (def_event (definitions ex_agg_nested)))
   \<and> applyHelper ex_agg_nested (ex_model\<lparr>settable := False\<rparr>) ex_cmd_once (JStr ''entered'') JUndefined
       = Inr ex_once_ran
   \<and> uncommittedEvents ex_once_ran = [ex_emitted_bare]
   \<and> \<not> dotty_exists
         (constructedEvent ex_agg_nested (ex_model\<lparr>settable := False\<rparr>) ex_cmd_once (JStr ''entered'') JUndefined)
         (fm_version (def_event (definitions ex_agg_nested)))
   \<and> maxVersion ex_agg_nested (JStr ''entered'') = 2
   \<and> dotty_get ex_emitted_bare (fm_version (def_event (definitions ex_agg_nested))) = JUndefined
   \<and> mapped (fm_version (def_event (definitions ex_agg_overlap)))
   \<and> applyHelper ex_agg_overlap (ex_model\<lparr>settable := False\<rparr>) ex_cmd_once (JStr ''entered'') JUndefined
       = Inr ex_once_ran
   \<and> \<not> dotty_exists
         (constructedEvent ex_agg_overlap (ex_model\<lparr>settable := False\<rparr>) ex_cmd_once (JStr ''entered'') JUndefined)
         (fm_version (def_event (definitions ex_agg_overlap)))
   \<and> maxVersion ex_agg_overlap (JStr ''entered'') = 2
   \<and> dotty_get ex_emitted_bare (fm_version (def_event (definitions ex_agg_overlap))) = JUndefined"
  by code_simp

text \<open>
  C8, amended: with an event version mapping configured, the version step leaves an
  event that has a value at the version path as it is; to any other event it applies
  \<^verbatim>\<open>dotty.put\<close> at the version path with the greatest version among the registered Event
  definitions of the event's name, 0 included (so 0 when none is registered), and the
  event then has that value at the version path if the path can be written in it: the
  event is an object and no value other than an object or \<^verbatim>\<open>undefined\<close> lies on the path.
  An invocation of the capability that gets past the context stamp appends one event,
  whether the replay of the event then throws or not, and this event has at the version
  path what the version step left there, as long as the paths of the aggregate name and
  the context name, which are stamped after the version, do not overlap the version
  path.
\<close>

theorem C8_event_version:
  assumes cfg: "mapped (fm_version (def_event (definitions agg)))"
  shows "(dotty_exists evt (fm_version (def_event (definitions agg))) \<longrightarrow> stampVersion agg evt = evt)
    \<and> (\<not> dotty_exists evt (fm_version (def_event (definitions agg))) \<longrightarrow>
         stampVersion agg evt =
           dotty_put evt (fm_version (def_event (definitions agg)))
             (JNum (int (Max (insert 0 (evt_version `
                {e \<in> set (events agg).
                   JStr (evt_name e) = dotty_get evt (fm_name (def_event (definitions agg)))}))))))
    \<and> (\<not> dotty_exists evt (fm_version (def_event (definitions agg)))
         \<and> dotty_writable evt (fm_version (def_event (definitions agg))) \<longrightarrow>
         dotty_get (stampVersion agg evt) (fm_version (def_event (definitions agg)))
           = JNum (int (Max (insert 0 (evt_version `
                {e \<in> set (events agg).
                   JStr (evt_name e) = dotty_get evt (fm_name (def_event (definitions agg)))}))))
         \<and> ((\<forall>e \<in> set (events agg).
                JStr (evt_name e) \<noteq> dotty_get evt (fm_name (def_event (definitions agg)))) \<longrightarrow>
              dotty_get (stampVersion agg evt) (fm_version (def_event (definitions agg))) = JNum 0))
    \<and> (thrownBy (applyHelper agg m cmd name payload) \<noteq> Some NoContext
         \<and> independent (fm_aggregate (def_event (definitions agg))) (fm_version (def_event (definitions agg)))
         \<and> independent (fm_context (def_event (definitions agg))) (fm_version (def_event (definitions agg))) \<longrightarrow>
         length (uncommittedEvents (modelAfter (applyHelper agg m cmd name payload)))
           = length (uncommittedEvents m) + 1
         \<and> dotty_get (last (uncommittedEvents (modelAfter (applyHelper agg m cmd name payload))))
               (fm_version (def_event (definitions agg)))
             = dotty_get (stampVersion agg (constructedEvent agg m cmd name payload))
                 (fm_version (def_event (definitions agg))))"
proof -
  let ?vp = "fm_version (def_event (definitions agg))"
  let ?np = "fm_name (def_event (definitions agg))"
  let ?e0 = "constructedEvent agg m cmd name payload"
  let ?after = "modelAfter (applyHelper agg m cmd name payload)"
  have kept: "dotty_exists evt ?vp \<Longrightarrow> stampVersion agg evt = evt"
    using cfg by (simp add: stampVersion_def)
  have inferred: "\<not> dotty_exists evt ?vp \<Longrightarrow>
      stampVersion agg evt = dotty_put evt ?vp (JNum (int (maxVersion agg (dotty_get evt ?np))))"
    using cfg by (simp add: stampVersion_def)
  have read: "dotty_get (stampVersion agg evt) ?vp = JNum (int (maxVersion agg (dotty_get evt ?np)))"
    if "\<not> dotty_exists evt ?vp" "dotty_writable evt ?vp"
    using that inferred by (simp add: dotty_get_put_same)
  have emitted: "length (uncommittedEvents ?after) = length (uncommittedEvents m) + 1
      \<and> dotty_get (last (uncommittedEvents ?after)) ?vp = dotty_get (stampVersion agg ?e0) ?vp"
    if past: "thrownBy (applyHelper agg m cmd name payload) \<noteq> Some NoContext"
      and ia: "independent (fm_aggregate (def_event (definitions agg))) ?vp"
      and ic: "independent (fm_context (def_event (definitions agg))) ?vp"
  proof (cases "stampContext agg cmd (stampAggregate agg cmd (stampVersion agg ?e0))")
    case (Inl e)
    from applyHelper_noContext[OF Inl] past show ?thesis by simp
  next
    case (Inr e)
    from applyHelper_emitted[OF Inr]
    have u: "uncommittedEvents ?after = uncommittedEvents m @ [e]" by simp
    have "dotty_get e ?vp = dotty_get (stampVersion agg ?e0) ?vp"
      using stampContext_get[OF Inr ic] stampAggregate_get[OF ia] by simp
    then show ?thesis using u by simp
  qed
  have zero: "dotty_get (stampVersion agg evt) ?vp = JNum 0"
    if "\<not> dotty_exists evt ?vp" "dotty_writable evt ?vp"
      "\<forall>e \<in> set (events agg). JStr (evt_name e) \<noteq> dotty_get evt ?np"
    using read[OF that(1,2)] maxVersion_none[OF that(3)] by simp
  note inferred' = inferred[unfolded maxVersion_Max]
  note read' = read[unfolded maxVersion_Max]
  show ?thesis
    using kept inferred' read' zero emitted by blast
qed

theorem C8_event_version_witness:
  "stampVersion ex_agg (JObj [(''name'', JStr ''entered''), (''version'', JNum 0)])
     = JObj [(''name'', JStr ''entered''), (''version'', JNum 0)]
   \<and> stampVersion ex_agg (JObj [(''name'', JStr ''entered'')])
     = JObj [(''name'', JStr ''entered''), (''version'', JNum 2)]
   \<and> dotty_get (stampVersion ex_agg (JObj [(''name'', JStr ''entered'')])) (Some ''version'') = JNum 2
   \<and> dotty_get (stampVersion ex_agg (JObj [(''name'', JStr ''left'')])) (Some ''version'') = JNum 0
   \<and> applyHelper ex_agg ex_model ex_cmd (JStr ''entered'') (JObj [(''room'', JNum 7)]) = Inr ex_applied
   \<and> dotty_get (last (uncommittedEvents ex_applied)) (Some ''version'') = JNum 2
   \<and> applyHelper ex_agg_more ex_model ex_cmd_retry (JStr ''left'') JUndefined
       = Inl (EventNotFound (JStr ''left''), ex_left_thrown)
   \<and> dotty_get (last (uncommittedEvents ex_left_thrown)) (Some ''version'') = JNum 0"
proof -
  let ?vp = "fm_version (def_event (definitions ex_agg))"
  let ?np = "fm_name (def_event (definitions ex_agg))"
  let ?a = "JObj [(''name'', JStr ''entered''), (''version'', JNum 0)]"
  let ?b = "JObj [(''name'', JStr ''entered'')]"
  let ?c = "JObj [(''name'', JStr ''left'')]"
  let ?e0 = "constructedEvent ex_agg ex_model ex_cmd (JStr ''entered'') (JObj [(''room'', JNum 7)])"
  let ?l0 = "constructedEvent ex_agg_more ex_model ex_cmd_retry (JStr ''left'') JUndefined"
  have cfg: "mapped ?vp" by code_simp
  have cfg': "mapped (fm_version (def_event (definitions ex_agg_more)))" by code_simp
  have vp: "?vp = Some ''version''" "fm_version (def_event (definitions ex_agg_more)) = Some ''version''"
    by code_simp+
  have a: "dotty_exists ?a ?vp" by code_simp
  have b: "\<not> dotty_exists ?b ?vp" "dotty_writable ?b ?vp" by code_simp+
  have c: "\<not> dotty_exists ?c ?vp" "dotty_writable ?c ?vp"
    "\<forall>e \<in> set (events ex_agg). JStr (evt_name e) \<noteq> dotty_get ?c ?np"
    by code_simp+
  have ok: "applyHelper ex_agg ex_model ex_cmd (JStr ''entered'') (JObj [(''room'', JNum 7)]) = Inr ex_applied"
    by code_simp
  have thrown: "applyHelper ex_agg_more ex_model ex_cmd_retry (JStr ''left'') JUndefined
       = Inl (EventNotFound (JStr ''left''), ex_left_thrown)"
    by code_simp
  have ia: "independent (fm_aggregate (def_event (definitions ex_agg))) ?vp"
    "independent (fm_aggregate (def_event (definitions ex_agg_more)))
       (fm_version (def_event (definitions ex_agg_more)))"
    by code_simp+
  have ic: "independent (fm_context (def_event (definitions ex_agg))) ?vp"
    "independent (fm_context (def_event (definitions ex_agg_more)))
       (fm_version (def_event (definitions ex_agg_more)))"
    by code_simp+
  have mb: "Max (insert 0 (evt_version ` {e \<in> set (events ex_agg). JStr (evt_name e) = dotty_get ?b ?np})) = 2"
    unfolding maxVersion_Max[symmetric] by code_simp
  have pb: "dotty_put ?b ?vp (JNum 2) = JObj [(''name'', JStr ''entered''), (''version'', JNum 2)]"
    by code_simp
  have se: "dotty_get (stampVersion ex_agg ?e0) ?vp = JNum 2" by code_simp
  have sl: "dotty_get (stampVersion ex_agg_more ?l0) (fm_version (def_event (definitions ex_agg_more))) = JNum 0"
    by code_simp
  note C8 = C8_event_version [OF cfg]
  from C8 [of ?a] a have 1: "stampVersion ex_agg ?a = ?a" by blast
  from C8 [of ?b] b have "stampVersion ex_agg ?b
      = dotty_put ?b ?vp (JNum (int (Max (insert 0 (evt_version `
           {e \<in> set (events ex_agg). JStr (evt_name e) = dotty_get ?b ?np})))))"
    by blast
  with mb pb have 2: "stampVersion ex_agg ?b = JObj [(''name'', JStr ''entered''), (''version'', JNum 2)]"
    by simp
  from C8 [of ?b] b have "dotty_get (stampVersion ex_agg ?b) ?vp
      = JNum (int (Max (insert 0 (evt_version `
           {e \<in> set (events ex_agg). JStr (evt_name e) = dotty_get ?b ?np}))))"
    by blast
  with mb have 3: "dotty_get (stampVersion ex_agg ?b) ?vp = JNum 2"
    by simp
  from C8 [of ?c] c have 4: "dotty_get (stampVersion ex_agg ?c) ?vp = JNum 0"
    by blast
  have past: "thrownBy (applyHelper ex_agg ex_model ex_cmd (JStr ''entered'') (JObj [(''room'', JNum 7)]))
                 \<noteq> Some NoContext"
    "thrownBy (applyHelper ex_agg_more ex_model ex_cmd_retry (JStr ''left'') JUndefined) \<noteq> Some NoContext"
    by (simp_all add: ok thrown)
  from C8 [of ?b ex_model ex_cmd "JStr ''entered''" "JObj [(''room'', JNum 7)]"] past(1) ia(1) ic(1)
  have "dotty_get (last (uncommittedEvents (modelAfter
            (applyHelper ex_agg ex_model ex_cmd (JStr ''entered'') (JObj [(''room'', JNum 7)]))))) ?vp
          = dotty_get (stampVersion ex_agg ?e0) ?vp"
    by blast
  with ok se have 5: "dotty_get (last (uncommittedEvents ex_applied)) ?vp = JNum 2"
    by simp
  from C8_event_version [OF cfg', of ?b ex_model ex_cmd_retry "JStr ''left''" JUndefined] past(2) ia(2) ic(2)
  have "dotty_get (last (uncommittedEvents (modelAfter
            (applyHelper ex_agg_more ex_model ex_cmd_retry (JStr ''left'') JUndefined))))
            (fm_version (def_event (definitions ex_agg_more)))
          = dotty_get (stampVersion ex_agg_more ?l0) (fm_version (def_event (definitions ex_agg_more)))"
    by blast
  with thrown sl
  have 6: "dotty_get (last (uncommittedEvents ex_left_thrown)) (fm_version (def_event (definitions ex_agg_more))) = JNum 0"
    by simp
  show ?thesis using 1 2 3 4 5 6 ok thrown vp by simp
qed

subsection \<open>The chain of preconditions\<close>

lemma eachSeries_preConditions_spec:
  assumes "c < length h"
    and "eachSeries_preConditions pcs c m h = (h', calls, r)"
  shows "length h \<le> length h' \<and> (\<forall>a < length h. h' ! a = h ! a)
     \<and> calls = map (\<lambda>pc. PreConditionCheck (pc_ref pc))
                 (takeWhile (\<lambda>pc. snd (pc_check pc (h ! c) m) = None) pcs
                  @ take 1 (dropWhile (\<lambda>pc. snd (pc_check pc (h ! c) m) = None) pcs))
     \<and> r = (case dropWhile (\<lambda>pc. snd (pc_check pc (h ! c) m) = None) pcs of
              [] \<Rightarrow> None
            | pc # rest \<Rightarrow> snd (pc_check pc (h ! c) m))"
  using assms
proof (induction pcs arbitrary: h h' calls r)
  case Nil
  then show ?case by simp
next
  case (Cons pc pcs)
  let ?h1 = "h @ [deref h c]"
  let ?a = "length h"
  obtain arg err where chk: "pc_check pc (deref ?h1 ?a) m = (arg, err)"
    by (cases "pc_check pc (deref ?h1 ?a) m")
  have d: "deref ?h1 ?a = h ! c"
    using Cons.prems(1) by (simp add: deref_def)
  let ?h2 = "?h1[?a := arg]"
  have old: "\<forall>a < length h. ?h2 ! a = h ! a"
    by (simp add: nth_append)
  show ?case
  proof (cases err)
    case (Some e)
    have res: "h' = ?h2" "calls = [PreConditionCheck (pc_ref pc)]" "r = Some e"
      using Cons.prems(2) chk Some by (simp_all add: cloneDeep_def)
    have fail: "snd (pc_check pc (h ! c) m) = Some e"
      using chk d Some by simp
    show ?thesis
      unfolding res using fail old by simp
  next
    case None
    obtain h3 calls3 r3 where rec: "eachSeries_preConditions pcs c m ?h2 = (h3, calls3, r3)"
      by (cases "eachSeries_preConditions pcs c m ?h2")
    have c2: "c < length ?h2" using Cons.prems(1) by simp
    have hc: "?h2 ! c = h ! c" using old Cons.prems(1) by blast
    from Cons.IH[OF c2 rec, unfolded hc]
    have ih: "length ?h2 \<le> length h3" "\<forall>a < length ?h2. h3 ! a = ?h2 ! a"
      "calls3 = map (\<lambda>pc. PreConditionCheck (pc_ref pc))
                 (takeWhile (\<lambda>pc. snd (pc_check pc (h ! c) m) = None) pcs
                  @ take 1 (dropWhile (\<lambda>pc. snd (pc_check pc (h ! c) m) = None) pcs))"
      "r3 = (case dropWhile (\<lambda>pc. snd (pc_check pc (h ! c) m) = None) pcs of
              [] \<Rightarrow> None
            | pc # rest \<Rightarrow> snd (pc_check pc (h ! c) m))"
      by simp_all
    have res: "h' = h3" "calls = PreConditionCheck (pc_ref pc) # calls3" "r = r3"
      using Cons.prems(2) chk None rec by (simp_all add: cloneDeep_def)
    have pass: "snd (pc_check pc (h ! c) m) = None"
      using chk d None by simp
    have len: "length h \<le> length h3" using ih(1) by simp
    have keep: "\<forall>a < length h. h3 ! a = h ! a"
      using ih(2) old by simp
    show ?thesis
      using res ih(3,4) pass len keep by simp
  qed
qed

lemma checkAggregatePreConditions_spec:
  assumes "c < length h"
    and "checkAggregatePreConditions agg c m h = (h', calls, r)"
  shows "length h \<le> length h' \<and> (\<forall>a < length h. h' ! a = h ! a)
     \<and> calls = map (\<lambda>pc. PreConditionCheck (pc_ref pc))
                 (takeWhile (passes (h ! c) m) (preConditions agg)
                  @ take 1 (dropWhile (passes (h ! c) m) (preConditions agg)))
     \<and> r = (case dropWhile (passes (h ! c) m) (preConditions agg) of
              [] \<Rightarrow> None
            | pc # rest \<Rightarrow> snd (pc_check pc (h ! c) m))"
proof (cases "preConditions agg = []")
  case True
  then show ?thesis using assms(2) by (simp add: checkAggregatePreConditions_def)
next
  case False
  then have "eachSeries_preConditions (preConditions agg) c m h = (h', calls, r)"
    using assms(2) by (simp add: checkAggregatePreConditions_def)
  from eachSeries_preConditions_spec[OF assms(1) this] show ?thesis
    unfolding passes_def by simp
qed



lemma idsAssigned_heap:
  "idsAssigned agg m1 previousModel cmd h res = Callback r m' h' n' \<Longrightarrow> h' = h"
  by (auto simp add: idsAssigned_def Let_def split: prod.splits option.splits)

lemma preConditionsChecked_heap:
  "preConditionsChecked agg command m0 c n res = Callback r m' h' n' \<Longrightarrow> h' = fst res"
  by (auto simp add: preConditionsChecked_def Let_def dest: idsAssigned_heap
           split: prod.splits option.splits sum.splits)


lemma addPreCondition_sorted:
  "sorted (map pc_priority (preConditions a)) \<Longrightarrow>
     sorted (map pc_priority (preConditions (addPreCondition p a)))"
  by (simp add: addPreCondition_def Let_def)

lemma addPreCondition_refs:
  "pc_ref ` set (preConditions (addPreCondition p a)) = insert (pc_ref p) (pc_ref ` set (preConditions a))"
  by (auto simp add: addPreCondition_def Let_def)

lemma addPreCondition_commands:
  "commands (addPreCondition p a) = commands a"
  by (simp add: addPreCondition_def Let_def)

lemma registered_preConditions:
  "sorted (map pc_priority (preConditions a)) \<Longrightarrow>
     sorted (map pc_priority (preConditions (foldl (\<lambda>a p. addPreCondition p a) a pcs)))
     \<and> pc_ref ` set (preConditions (foldl (\<lambda>a p. addPreCondition p a) a pcs))
         = pc_ref ` set (preConditions a) \<union> pc_ref ` set pcs"
proof (induction pcs arbitrary: a)
  case Nil
  then show ?case by simp
next
  case (Cons p pcs)
  from Cons.IH[OF addPreCondition_sorted[OF Cons.prems, of p]] show ?case
    by (simp add: addPreCondition_refs)
qed

lemma takeWhile_all: "\<forall>x \<in> set xs. P x \<Longrightarrow> takeWhile P xs = xs \<and> dropWhile P xs = []"
  by (induction xs) auto

lemma dropWhile_some: "\<exists>x \<in> set xs. \<not> P x \<Longrightarrow> \<exists>y ys. dropWhile P xs = y # ys \<and> \<not> P y"
  by (metis dropWhile_eq_Nil_conv hd_dropWhile list.exhaust list.sel(1))

text \<open>
  C7: on an aggregate whose preconditions were registered with \<open>addPreCondition\<close>, the
  list is in ascending order of priority and holds every precondition registered.
  \<open>checkPreConditions\<close> calls them in that order, each on the command as it was handed
  over. If one fails, the calls end with the first that fails and its error is what the
  callback gets. The command's own \<open>checkPreConditions\<close> is called only when all have
  passed, after the last of them, and then its result is what the callback gets
  (unless the command cannot be resolved, which throws).
\<close>

theorem C7_checkPreConditions:
  assumes new: "preConditions agg0 = []"
    and reg: "agg = foldl (\<lambda>a p. addPreCondition p a) agg0 pcs"
    and c: "c < length h"
    and run: "checkPreConditions agg c m h = (h', calls, r)"
  shows "sorted (map pc_priority (preConditions agg))
     \<and> pc_ref ` set (preConditions agg) = pc_ref ` set pcs
     \<and> ((\<exists>pc \<in> set (preConditions agg). \<not> passes (deref h c) m pc) \<longrightarrow>
          calls = map (\<lambda>pc. PreConditionCheck (pc_ref pc))
                    (takeWhile (passes (deref h c) m) (preConditions agg)
                     @ [hd (dropWhile (passes (deref h c) m) (preConditions agg))])
          \<and> r = Inr (snd (pc_check (hd (dropWhile (passes (deref h c) m) (preConditions agg))) (deref h c) m))
          \<and> (\<exists>e. r = Inr (Some e)))
     \<and> ((\<forall>pc \<in> set (preConditions agg). passes (deref h c) m pc) \<longrightarrow>
          (calls = map (\<lambda>pc. PreConditionCheck (pc_ref pc)) (preConditions agg) \<and> (\<exists>e. r = Inl e))
          \<or> (\<exists>command \<in> set (commands agg).
                calls = map (\<lambda>pc. PreConditionCheck (pc_ref pc)) (preConditions agg)
                          @ [CommandPreConditions (cmd_ref command)]
                \<and> r = Inr (cmd_checkPreConditions command (deref h c) m)))
     \<and> (\<forall>k. CommandPreConditions k \<in> set calls \<longrightarrow>
          (\<forall>pc \<in> set (preConditions agg). passes (deref h c) m pc))"
proof -
  let ?P = "passes (deref h c) m"
  let ?pcs = "preConditions agg"
  have d: "deref h c = h ! c" using c by (simp add: deref_def)
  have s0: "sorted (map pc_priority (preConditions agg0))" using new by simp
  from registered_preConditions[OF s0, of pcs] new reg
  have srt: "sorted (map pc_priority ?pcs)" and refs: "pc_ref ` set ?pcs = pc_ref ` set pcs"
    by simp_all
  obtain h1 calls1 r1 where agg: "checkAggregatePreConditions agg c m h = (h1, calls1, r1)"
    by (cases "checkAggregatePreConditions agg c m h")
  note spec = checkAggregatePreConditions_spec[OF c agg]
  from spec have hc: "h1 ! c = h ! c" and len: "length h \<le> length h1"
    using c by simp_all
  from spec[folded d]
  have calls1: "calls1 = map (\<lambda>pc. PreConditionCheck (pc_ref pc))
                 (takeWhile ?P ?pcs @ take 1 (dropWhile ?P ?pcs))"
    and r1: "r1 = (case dropWhile ?P ?pcs of [] \<Rightarrow> None | pc # rest \<Rightarrow> snd (pc_check pc (deref h c) m))"
    by simp_all
  have d1: "deref h1 c = deref h c" using hc len c by (simp add: deref_def)
  have failing: "calls = map (\<lambda>pc. PreConditionCheck (pc_ref pc)) (takeWhile ?P ?pcs @ [hd (dropWhile ?P ?pcs)])
          \<and> r = Inr (snd (pc_check (hd (dropWhile ?P ?pcs)) (deref h c) m))
          \<and> (\<exists>e. r = Inr (Some e))"
    if "\<exists>pc \<in> set ?pcs. \<not> ?P pc"
  proof -
    from dropWhile_some[OF that] obtain y ys where dw: "dropWhile ?P ?pcs = y # ys" and ny: "\<not> ?P y"
      by blast
    from ny obtain e where e: "snd (pc_check y (deref h c) m) = Some e"
      by (auto simp: passes_def)
    have "r1 = Some e" using r1 dw e by simp
    then have "calls = calls1" "r = Inr (Some e)"
      using run agg by (simp_all add: checkPreConditions_def)
    then show ?thesis using calls1 dw e by simp
  qed
  have passing: "(calls = map (\<lambda>pc. PreConditionCheck (pc_ref pc)) ?pcs \<and> (\<exists>e. r = Inl e))
          \<or> (\<exists>command \<in> set (commands agg).
                calls = map (\<lambda>pc. PreConditionCheck (pc_ref pc)) ?pcs @ [CommandPreConditions (cmd_ref command)]
                \<and> r = Inr (cmd_checkPreConditions command (deref h c) m))"
    if "\<forall>pc \<in> set ?pcs. ?P pc"
  proof -
    from takeWhile_all[OF that] have tw: "takeWhile ?P ?pcs = ?pcs" "dropWhile ?P ?pcs = []"
      by simp_all
    have c1: "calls1 = map (\<lambda>pc. PreConditionCheck (pc_ref pc)) ?pcs" and rn: "r1 = None"
      using calls1 r1 tw by simp_all
    show ?thesis
      using run agg c1 rn d1
      by (auto simp add: checkPreConditions_def Let_def getCommand_def
               split: if_splits sum.splits option.splits dest: find_first_match)
  qed
  have only: "\<forall>pc \<in> set ?pcs. ?P pc" if "CommandPreConditions k \<in> set calls" for k
  proof (rule ccontr)
    assume "\<not> (\<forall>pc \<in> set ?pcs. ?P pc)"
    then have "\<exists>pc \<in> set ?pcs. \<not> ?P pc" by blast
    from failing[OF this] that show False by auto
  qed
  show ?thesis
    using srt refs failing passing only by blast
qed

theorem C7_checkPreConditions_witness:
  "map pc_ref (preConditions ex_agg_checked) = [10, 11]
   \<and> map pc_priority (preConditions ex_agg_closed) = [1, 3, 5]
   \<and> checkPreConditions ex_agg_checked 0 ex_model [ex_cmd]
       = ([ex_cmd, ex_cmd_renamed, ex_cmd],
          [PreConditionCheck 10, PreConditionCheck 11, CommandPreConditions 3], Inr None)
   \<and> checkPreConditions ex_agg_closed 0 ex_model [ex_cmd]
       = ([ex_cmd, ex_cmd_renamed, ex_cmd],
          [PreConditionCheck 10, PreConditionCheck 12], Inr (Some (Failure ''closed'')))
   \<and> sorted (map pc_priority (preConditions ex_agg_checked))
   \<and> sorted (map pc_priority (preConditions ex_agg_closed))"
proof -
  have new: "preConditions ex_agg = []" by code_simp
  have c: "(0::nat) < length [ex_cmd]" by simp
  have r1: "checkPreConditions ex_agg_checked 0 ex_model [ex_cmd]
       = ([ex_cmd, ex_cmd_renamed, ex_cmd],
          [PreConditionCheck 10, PreConditionCheck 11, CommandPreConditions 3], Inr None)"
    by code_simp
  have r2: "checkPreConditions ex_agg_closed 0 ex_model [ex_cmd]
       = ([ex_cmd, ex_cmd_renamed, ex_cmd],
          [PreConditionCheck 10, PreConditionCheck 12], Inr (Some (Failure ''closed'')))"
    by code_simp
  have l1: "map pc_ref (preConditions ex_agg_checked) = [10, 11]" by code_simp
  have l2: "map pc_priority (preConditions ex_agg_closed) = [1, 3, 5]" by code_simp
  from C7_checkPreConditions [OF new ex_agg_checked_def c r1]
  have s1: "sorted (map pc_priority (preConditions ex_agg_checked))" by blast
  from C7_checkPreConditions [OF new ex_agg_closed_def c r2]
  have s2: "sorted (map pc_priority (preConditions ex_agg_closed))" by blast
  show ?thesis using r1 r2 l1 l2 s1 s2 by simp
qed



subsection \<open>A command that was handled\<close>

lemma idsAssigned_committed:
  assumes "idsAssigned agg m1 previousModel cmd h (evts, k, r) = Callback None m' h' n'"
  shows "r = None \<and> m' = m1\<lparr>uncommittedEvents := evts\<rparr> \<and> h' = h \<and> n' = k
     \<and> checkBusinessRules agg (m1\<lparr>uncommittedEvents := evts\<rparr>) previousModel evts cmd = None"
  using assms by (auto simp add: idsAssigned_def Let_def split: option.splits)

lemma preConditionsChecked_committed:
  assumes "preConditionsChecked agg command m0 c n (h1, calls, r) = Callback None m' h' n'"
  shows "r = Inr None \<and> h' = h1
     \<and> (\<exists>m1. snd (runHandling (cmd_handle command (deref h1 c) (attributes m0)) agg (deref h1 c) m0) = Inr m1
           \<and> each_assignId agg (uncommittedEvents m1) n = (uncommittedEvents m', n', None)
           \<and> m' = m1\<lparr>uncommittedEvents := uncommittedEvents m'\<rparr>)"
proof -
  from assms have r: "r = Inr None"
    by (auto simp add: preConditionsChecked_def split: sum.splits option.splits)
  from assms r obtain m1 where
    rh: "snd (runHandling (cmd_handle command (deref h1 c) (attributes m0)) agg (deref h1 c) m0) = Inr m1"
    by (auto simp add: preConditionsChecked_def Let_def split: sum.splits)
  obtain evts k e where ea: "each_assignId agg (uncommittedEvents m1) n = (evts, k, e)"
    by (cases "each_assignId agg (uncommittedEvents m1) n")
  from assms r rh ea have
    "idsAssigned agg m1 (newAggregateModel (model_id m0) (toJSON m0)) (deref h1 c) h1 (evts, k, e)
       = Callback None m' h' n'"
    by (simp add: preConditionsChecked_def Let_def getUncommittedEvents_def)
  from idsAssigned_committed[OF this] r rh ea show ?thesis by auto
qed

lemma handle_committed:
  assumes "handle agg m c h n = Callback None m' h' n'"
  shows "\<exists>command calls m1.
      getCommand agg (dotty_get (deref h c) (fm_name (def_command (definitions agg))))
         (if mapped (fm_version (def_command (definitions agg)))
          then dotty_get (deref h c) (fm_version (def_command (definitions agg))) else JNum 0)
        = Inr (Some command)
      \<and> checkPreConditions agg c (m\<lparr>settable := False\<rparr>) h = (h', calls, Inr None)
      \<and> snd (runHandling (cmd_handle command (deref h' c) (attributes m)) agg (deref h' c)
            (m\<lparr>settable := False\<rparr>)) = Inr m1
      \<and> each_assignId agg (uncommittedEvents m1) n = (uncommittedEvents m', n', None)
      \<and> m' = m1\<lparr>uncommittedEvents := uncommittedEvents m'\<rparr>"
proof -
  from assms obtain command where
    g: "getCommand agg (dotty_get (deref h c) (fm_name (def_command (definitions agg))))
         (if mapped (fm_version (def_command (definitions agg)))
          then dotty_get (deref h c) (fm_version (def_command (definitions agg))) else JNum 0)
        = Inr (Some command)" and
    p: "preConditionsChecked agg command (m\<lparr>settable := False\<rparr>) c n
          (checkPreConditions agg c (m\<lparr>settable := False\<rparr>) h) = Callback None m' h' n'"
    by (auto simp add: handle_def Let_def split: if_splits sum.splits option.splits)
  obtain h1 calls r where cp: "checkPreConditions agg c (m\<lparr>settable := False\<rparr>) h = (h1, calls, r)"
    by (cases "checkPreConditions agg c (m\<lparr>settable := False\<rparr>) h")
  from preConditionsChecked_committed[OF p[unfolded cp]] obtain m1 where
    "r = Inr None" "h' = h1"
    "snd (runHandling (cmd_handle command (deref h1 c) (attributes (m\<lparr>settable := False\<rparr>))) agg (deref h1 c)
       (m\<lparr>settable := False\<rparr>)) = Inr m1"
    "each_assignId agg (uncommittedEvents m1) n = (uncommittedEvents m', n', None)"
    "m' = m1\<lparr>uncommittedEvents := uncommittedEvents m'\<rparr>"
    by blast
  then have "getCommand agg (dotty_get (deref h c) (fm_name (def_command (definitions agg))))
         (if mapped (fm_version (def_command (definitions agg)))
          then dotty_get (deref h c) (fm_version (def_command (definitions agg))) else JNum 0)
        = Inr (Some command)
      \<and> checkPreConditions agg c (m\<lparr>settable := False\<rparr>) h = (h', calls, Inr None)
      \<and> snd (runHandling (cmd_handle command (deref h' c) (attributes m)) agg (deref h' c)
            (m\<lparr>settable := False\<rparr>)) = Inr m1
      \<and> each_assignId agg (uncommittedEvents m1) n = (uncommittedEvents m', n', None)
      \<and> m' = m1\<lparr>uncommittedEvents := uncommittedEvents m'\<rparr>"
    using cp g by simp
  then show ?thesis by blast
qed

lemma each_assignId_spec:
  assumes "each_assignId agg evts n = (es, n', None)"
  shows "length es = length evts \<and> n \<le> n'
     \<and> (\<forall>i < length evts.
          (truthy (dotty_get (evts ! i) (fm_id (def_event (definitions agg)))) \<longrightarrow> es ! i = evts ! i)
          \<and> (\<not> truthy (dotty_get (evts ! i) (fm_id (def_event (definitions agg)))) \<longrightarrow>
               (\<exists>k v. n \<le> k \<and> k < n' \<and> getNewId agg k = Inr v
                      \<and> es ! i = dotty_put (evts ! i) (fm_id (def_event (definitions agg))) v)))"
  using assms
proof (induction evts arbitrary: n es)
  case Nil
  then show ?case by simp
next
  case (Cons evt evts)
  let ?idp = "fm_id (def_event (definitions agg))"
  show ?case
  proof (cases "truthy (dotty_get evt ?idp)")
    case True
    obtain es1 k r where rec: "each_assignId agg evts n = (es1, k, r)"
      by (cases "each_assignId agg evts n")
    from Cons.prems True rec have res: "es = evt # es1" "k = n'" "r = None"
      by simp_all
    from Cons.IH[OF rec[unfolded res(2,3)]] res(1) True show ?thesis
      by (auto simp add: nth_Cons split: nat.splits)
  next
    case False
    from Cons.prems False obtain v where g: "getNewId agg n = Inr v"
      by (auto split: sum.splits)
    obtain es1 k r where rec: "each_assignId agg evts (Suc n) = (es1, k, r)"
      by (cases "each_assignId agg evts (Suc n)")
    from Cons.prems False g rec have res: "es = dotty_put evt ?idp v # es1" "k = n'" "r = None"
      by simp_all
    from Cons.IH[OF rec[unfolded res(2,3)]]
    have ih: "length es1 = length evts" "Suc n \<le> n'"
      "\<forall>i < length evts.
          (truthy (dotty_get (evts ! i) ?idp) \<longrightarrow> es1 ! i = evts ! i)
          \<and> (\<not> truthy (dotty_get (evts ! i) ?idp) \<longrightarrow>
               (\<exists>k v. Suc n \<le> k \<and> k < n' \<and> getNewId agg k = Inr v
                      \<and> es1 ! i = dotty_put (evts ! i) ?idp v))"
      by simp_all
    have "\<forall>i < length (evt # evts).
          (truthy (dotty_get ((evt # evts) ! i) ?idp) \<longrightarrow> es ! i = (evt # evts) ! i)
          \<and> (\<not> truthy (dotty_get ((evt # evts) ! i) ?idp) \<longrightarrow>
               (\<exists>k v. n \<le> k \<and> k < n' \<and> getNewId agg k = Inr v
                      \<and> es ! i = dotty_put ((evt # evts) ! i) ?idp v))"
    proof (intro allI impI)
      fix i assume i: "i < length (evt # evts)"
      show "(truthy (dotty_get ((evt # evts) ! i) ?idp) \<longrightarrow> es ! i = (evt # evts) ! i)
          \<and> (\<not> truthy (dotty_get ((evt # evts) ! i) ?idp) \<longrightarrow>
               (\<exists>k v. n \<le> k \<and> k < n' \<and> getNewId agg k = Inr v
                      \<and> es ! i = dotty_put ((evt # evts) ! i) ?idp v))"
      proof (cases i)
        case 0
        then show ?thesis using False g res(1) ih(2) by auto
      next
        case (Suc j)
        then have "j < length evts" using i by simp
        with ih(3) have
          "(truthy (dotty_get (evts ! j) ?idp) \<longrightarrow> es1 ! j = evts ! j)
          \<and> (\<not> truthy (dotty_get (evts ! j) ?idp) \<longrightarrow>
               (\<exists>k v. Suc n \<le> k \<and> k < n' \<and> getNewId agg k = Inr v
                      \<and> es1 ! j = dotty_put (evts ! j) ?idp v))"
          by blast
        then show ?thesis using Suc res(1)
          by (auto intro: Suc_leD)
      qed
    qed
    then show ?thesis using ih(1,2) res(1) by simp
  qed
qed

text \<open>
  C4, as stated, at explicit inputs. The handler of the command \<open>odd\<close> hands the
  capability the number 5: \<open>handle\<close> succeeds, the generator is asked for one id, and the
  one uncommitted event is \<^verbatim>\<open>undefined\<close>, which had no id before and has none after. The
  handler of the command \<open>zero\<close> emits an event that brings the id 0: \<open>handle\<close> succeeds and
  the event has the generator's id in place of its own.
\<close>

theorem C4_event_id_counterexample:
  "handle ex_agg_more ex_model 0 [ex_cmd_odd] 0 = Callback None ex_odd_handled [ex_cmd_odd] 1
   \<and> snd (runHandling (cmd_handle ex_odd ex_cmd_odd (JObj [])) ex_agg_more ex_cmd_odd
            (ex_model\<lparr>settable := False\<rparr>)) = Inr ex_odd_handled
   \<and> uncommittedEvents ex_odd_handled = [JUndefined]
   \<and> getNewId ex_agg_more 0 = Inr (JStr ''id-'')
   \<and> dotty_get JUndefined (fm_id (def_event (definitions ex_agg_more))) = JUndefined
   \<and> handle ex_agg_more ex_model 0 [ex_cmd_zero] 0 = Callback None ex_zero_handled [ex_cmd_zero] 1
   \<and> snd (runHandling (cmd_handle ex_zero ex_cmd_zero (JObj [])) ex_agg_more ex_cmd_zero
            (ex_model\<lparr>settable := False\<rparr>)) = Inr ex_zero_ran
   \<and> uncommittedEvents ex_zero_ran = [ex_emitted_zero]
   \<and> uncommittedEvents ex_zero_handled = [ex_emitted_zero_id]
   \<and> dotty_get ex_emitted_zero (fm_id (def_event (definitions ex_agg_more))) = JNum 0
   \<and> dotty_get ex_emitted_zero_id (fm_id (def_event (definitions ex_agg_more))) = JStr ''id-''"
  by code_simp

text \<open>
  C4, amended: after a successful \<open>handle\<close>, every uncommitted event that came out of the
  command's handler with a truthy value at the event id path (a value other than
  \<^verbatim>\<open>undefined\<close>, \<^verbatim>\<open>null\<close>, \<^verbatim>\<open>false\<close>, 0 and the empty string) is as it was, and to every
  other one \<^verbatim>\<open>dotty.put\<close> has been applied at that path with an id that the generator
  produced in this call of \<open>handle\<close>; the event has that id at the path whenever the path
  can be written in it: the mapping has an entry for the id, the event is an object and
  no value other than an object or \<^verbatim>\<open>undefined\<close> lies on the path. The events are as many
  as the handler left, and in the same order.
\<close>

theorem C4_event_ids:
  assumes "handle agg m c h n = Callback None m' h' n'"
  shows "\<exists>command m1.
      getCommand agg (dotty_get (deref h c) (fm_name (def_command (definitions agg))))
         (if mapped (fm_version (def_command (definitions agg)))
          then dotty_get (deref h c) (fm_version (def_command (definitions agg))) else JNum 0)
        = Inr (Some command)
      \<and> snd (runHandling (cmd_handle command (deref h' c) (attributes m)) agg (deref h' c)
          (m\<lparr>settable := False\<rparr>)) = Inr m1
      \<and> length (uncommittedEvents m') = length (uncommittedEvents m1)
      \<and> (\<forall>i < length (uncommittedEvents m1).
            (truthy (dotty_get (uncommittedEvents m1 ! i) (fm_id (def_event (definitions agg)))) \<longrightarrow>
               uncommittedEvents m' ! i = uncommittedEvents m1 ! i)
            \<and> (\<not> truthy (dotty_get (uncommittedEvents m1 ! i) (fm_id (def_event (definitions agg)))) \<longrightarrow>
                 (\<exists>k v. n \<le> k \<and> k < n' \<and> getNewId agg k = Inr v
                    \<and> uncommittedEvents m' ! i
                        = dotty_put (uncommittedEvents m1 ! i) (fm_id (def_event (definitions agg))) v
                    \<and> (dotty_writable (uncommittedEvents m1 ! i) (fm_id (def_event (definitions agg))) \<longrightarrow>
                         dotty_get (uncommittedEvents m' ! i) (fm_id (def_event (definitions agg))) = v))))"
proof -
  let ?idp = "fm_id (def_event (definitions agg))"
  from handle_committed[OF assms] obtain command calls m1 where
    g: "getCommand agg (dotty_get (deref h c) (fm_name (def_command (definitions agg))))
         (if mapped (fm_version (def_command (definitions agg)))
          then dotty_get (deref h c) (fm_version (def_command (definitions agg))) else JNum 0)
        = Inr (Some command)"
    and rh: "snd (runHandling (cmd_handle command (deref h' c) (attributes m)) agg (deref h' c)
            (m\<lparr>settable := False\<rparr>)) = Inr m1"
    and ea: "each_assignId agg (uncommittedEvents m1) n = (uncommittedEvents m', n', None)"
    by blast
  note spec = each_assignId_spec[OF ea]
  have "\<forall>i < length (uncommittedEvents m1).
            (truthy (dotty_get (uncommittedEvents m1 ! i) ?idp) \<longrightarrow>
               uncommittedEvents m' ! i = uncommittedEvents m1 ! i)
            \<and> (\<not> truthy (dotty_get (uncommittedEvents m1 ! i) ?idp) \<longrightarrow>
                 (\<exists>k v. n \<le> k \<and> k < n' \<and> getNewId agg k = Inr v
                    \<and> uncommittedEvents m' ! i = dotty_put (uncommittedEvents m1 ! i) ?idp v
                    \<and> (dotty_writable (uncommittedEvents m1 ! i) ?idp \<longrightarrow>
                         dotty_get (uncommittedEvents m' ! i) ?idp = v)))"
  proof (intro allI impI conjI)
    fix i assume i: "i < length (uncommittedEvents m1)"
      and t: "truthy (dotty_get (uncommittedEvents m1 ! i) ?idp)"
    with spec show "uncommittedEvents m' ! i = uncommittedEvents m1 ! i" by blast
  next
    fix i assume i: "i < length (uncommittedEvents m1)"
      and t: "\<not> truthy (dotty_get (uncommittedEvents m1 ! i) ?idp)"
    with spec obtain k v where kv: "n \<le> k" "k < n'" "getNewId agg k = Inr v"
      "uncommittedEvents m' ! i = dotty_put (uncommittedEvents m1 ! i) ?idp v"
      by blast
    have "dotty_writable (uncommittedEvents m1 ! i) ?idp \<longrightarrow>
            dotty_get (uncommittedEvents m' ! i) ?idp = v"
      using kv(4) by (simp add: dotty_get_put_same)
    with kv show "\<exists>k v. n \<le> k \<and> k < n' \<and> getNewId agg k = Inr v
                    \<and> uncommittedEvents m' ! i = dotty_put (uncommittedEvents m1 ! i) ?idp v
                    \<and> (dotty_writable (uncommittedEvents m1 ! i) ?idp \<longrightarrow>
                         dotty_get (uncommittedEvents m' ! i) ?idp = v)"
      by blast
  qed
  with g rh spec show ?thesis by auto
qed

theorem C4_event_ids_witness:
  "handle ex_agg ex_model 0 [ex_cmd] 0 = Callback None ex_handled [ex_cmd] 1
   \<and> snd (runHandling (cmd_handle ex_enter ex_cmd (JObj [])) ex_agg ex_cmd (ex_model\<lparr>settable := False\<rparr>))
        = Inr ex_ran
   \<and> uncommittedEvents ex_ran = [ex_emitted, ex_emitted_given]
   \<and> dotty_get ex_emitted (Some ''id'') = JUndefined
   \<and> dotty_get ex_emitted_given (Some ''id'') = JStr ''given''
   \<and> getNewId ex_agg 0 = Inr (JStr ''id-'')
   \<and> dotty_get (uncommittedEvents ex_handled ! 0) (Some ''id'') = JStr ''id-''
   \<and> uncommittedEvents ex_handled ! 1 = ex_emitted_given"
proof -
  let ?idp = "fm_id (def_event (definitions ex_agg))"
  have h: "handle ex_agg ex_model 0 [ex_cmd] 0 = Callback None ex_handled [ex_cmd] 1"
    by code_simp
  have r: "snd (runHandling (cmd_handle ex_enter ex_cmd (JObj [])) ex_agg ex_cmd (ex_model\<lparr>settable := False\<rparr>))
             = Inr ex_ran"
    by code_simp
  have e: "uncommittedEvents ex_ran = [ex_emitted, ex_emitted_given]"
    "dotty_get ex_emitted ?idp = JUndefined"
    "dotty_get ex_emitted_given ?idp = JStr ''given''"
    "dotty_writable ex_emitted ?idp"
    "?idp = Some ''id''"
    by code_simp+
  have g: "getNewId ex_agg 0 = Inr (JStr ''id-'')" by (simp add: ex_agg_def)
  have gc: "getCommand ex_agg (dotty_get (deref [ex_cmd] 0) (fm_name (def_command (definitions ex_agg))))
         (if mapped (fm_version (def_command (definitions ex_agg)))
          then dotty_get (deref [ex_cmd] 0) (fm_version (def_command (definitions ex_agg))) else JNum 0)
        = Inr (Some ex_enter)"
    by (simp add: getCommand_def ex_agg_def ex_command_mapping_def deref_def ex_cmd_def dotty_get_def
          js_prop_def ex_enter_def)
  have d: "deref [ex_cmd] 0 = ex_cmd" "attributes ex_model = JObj []"
    by code_simp+
  from C4_event_ids [OF h] obtain command m1 where
    1: "getCommand ex_agg (dotty_get (deref [ex_cmd] 0) (fm_name (def_command (definitions ex_agg))))
         (if mapped (fm_version (def_command (definitions ex_agg)))
          then dotty_get (deref [ex_cmd] 0) (fm_version (def_command (definitions ex_agg))) else JNum 0)
        = Inr (Some command)"
    and 2: "snd (runHandling (cmd_handle command (deref [ex_cmd] 0) (attributes ex_model)) ex_agg (deref [ex_cmd] 0)
          (ex_model\<lparr>settable := False\<rparr>)) = Inr m1"
    and 3: "\<forall>i < length (uncommittedEvents m1).
            (truthy (dotty_get (uncommittedEvents m1 ! i) ?idp) \<longrightarrow>
               uncommittedEvents ex_handled ! i = uncommittedEvents m1 ! i)
            \<and> (\<not> truthy (dotty_get (uncommittedEvents m1 ! i) ?idp) \<longrightarrow>
                 (\<exists>k v. 0 \<le> k \<and> k < 1 \<and> getNewId ex_agg k = Inr v
                    \<and> uncommittedEvents ex_handled ! i = dotty_put (uncommittedEvents m1 ! i) ?idp v
                    \<and> (dotty_writable (uncommittedEvents m1 ! i) ?idp \<longrightarrow>
                         dotty_get (uncommittedEvents ex_handled ! i) ?idp = v)))"
    by blast
  from 1 gc have "command = ex_enter" by simp
  with 2 r d have m1: "m1 = ex_ran" by simp
  from 3 [rule_format, of 0] m1 e g have a: "dotty_get (uncommittedEvents ex_handled ! 0) ?idp = JStr ''id-''"
    by auto
  from 3 [rule_format, of 1] m1 e have b: "uncommittedEvents ex_handled ! 1 = ex_emitted_given"
    by auto
  show ?thesis using h r e g a b by simp
qed

subsection \<open>Revisions\<close>













subsection \<open>Loading a snapshot\<close>

lemma set_all_open:
  "settable m \<Longrightarrow> set_all ds m = Inr (m\<lparr>attributes := foldl assign (attributes m) ds\<rparr>)"
  by (induction ds arbitrary: m) (simp_all add: model_set_def)

lemma set_all_closed:
  "\<not> settable m \<Longrightarrow> ds \<noteq> [] \<Longrightarrow> set_all ds m = Inl (SetNotAllowed, m)"
  by (cases ds) (simp_all add: model_set_def)

text \<open>
  C6, as stated, at an explicit input: the model that \<open>handle\<close> has left after the
  command \<open>enter\<close>, with its \<^verbatim>\<open>set\<close> replaced, and a snapshot of the aggregate's version.
  \<open>loadFromHistory\<close> fails, with the usage error of \<^verbatim>\<open>set\<close>: the data is not assigned and
  the revision is not the snapshot's.
\<close>

theorem C6_closed_gate_counterexample:
  "handle ex_agg ex_model 0 [ex_cmd] 0 = Callback None ex_handled [ex_cmd] 1
   \<and> snap_version ex_snapshot = agg_version ex_agg
   \<and> loadFromHistory ex_agg ex_handled (Some ex_snapshot) [] 0 = Inl (SetNotAllowed, ex_handled)
   \<and> getRevision ex_handled = 2
   \<and> snap_revision ex_snapshot = 7"
  by code_simp

text \<open>
  C6, amended. On a model whose gate is open, as it is on a model that has not been
  through \<open>handle\<close>: if the snapshot has the aggregate's version, its data is assigned
  into the model and the snapshot branch flags nothing; if the versions differ and a
  conversion is registered for the snapshot's version, the conversion is what changes
  the model and \<open>loadFromHistory\<close>, whenever it returns, returns true. If the versions
  differ and no conversion is registered, \<open>loadFromHistory\<close> fails with the error of the
  missing conversion, whatever the gate. On a model whose gate is closed,
  \<open>loadFromHistory\<close> fails with the usage error of \<^verbatim>\<open>set\<close> and leaves the model as it was,
  if the snapshot has the aggregate's version, and also if a conversion is registered
  and calls \<^verbatim>\<open>set\<close>. Whenever the snapshot branch does not fail it leaves the model at the
  snapshot's revision, which is the revision \<open>loadFromHistory\<close> returns the model with
  when no events follow.
\<close>

theorem C6_loadFromHistory_snapshot:
  "(settable m \<longrightarrow>
      (snap_version s = agg_version agg \<longrightarrow>
         loadSnapshot agg m (Some s)
           = Inr (False, m\<lparr>attributes := assign (attributes m) (snap_data s), revision := snap_revision s\<rparr>)
         \<and> loadFromHistory agg m (Some s) [] loadingTime
           = Inr (False, Some (m\<lparr>attributes := assign (attributes m) (snap_data s),
                                  revision := snap_revision s\<rparr>)))
      \<and> (snap_version s \<noteq> agg_version agg \<longrightarrow>
           (\<forall>fn. snapshotConversions agg (snap_version s) = Some fn \<longrightarrow>
              loadSnapshot agg m (Some s)
                = Inr (True, m\<lparr>attributes := foldl assign (attributes m) (fn (snap_data s) (attributes m)),
                               revision := snap_revision s\<rparr>)
              \<and> (\<forall>b after. loadFromHistory agg m (Some s) evts loadingTime = Inr (b, after) \<longrightarrow> b))))
   \<and> (snap_version s \<noteq> agg_version agg \<and> snapshotConversions agg (snap_version s) = None \<longrightarrow>
         loadSnapshot agg m (Some s) = Inl (NoSnapshotConversion, m)
         \<and> loadFromHistory agg m (Some s) evts loadingTime = Inl (NoSnapshotConversion, m))
   \<and> (\<not> settable m \<and> snap_version s = agg_version agg \<longrightarrow>
         loadFromHistory agg m (Some s) evts loadingTime = Inl (SetNotAllowed, m))
   \<and> (\<not> settable m \<and> snap_version s \<noteq> agg_version agg \<longrightarrow>
         (\<forall>fn. snapshotConversions agg (snap_version s) = Some fn
                 \<and> fn (snap_data s) (attributes m) \<noteq> [] \<longrightarrow>
            loadFromHistory agg m (Some s) evts loadingTime = Inl (SetNotAllowed, m)))
   \<and> (\<forall>flag m'. loadSnapshot agg m (Some s) = Inr (flag, m') \<longrightarrow> getRevision m' = snap_revision s)
   \<and> (\<forall>flag m'. loadFromHistory agg m (Some s) [] loadingTime = Inr (flag, Some m') \<longrightarrow>
          getRevision m' = snap_revision s)"
proof -
  have same: "loadSnapshot agg m (Some s)
          = Inr (False, m\<lparr>attributes := assign (attributes m) (snap_data s), revision := snap_revision s\<rparr>)"
    if "settable m" "snap_version s = agg_version agg"
    using that by (simp add: loadSnapshot_def model_set_def setRevision_def)
  have conv: "loadSnapshot agg m (Some s)
              = Inr (True, m\<lparr>attributes := foldl assign (attributes m) (fn (snap_data s) (attributes m)),
                             revision := snap_revision s\<rparr>)"
    if "settable m" "snap_version s \<noteq> agg_version agg" "snapshotConversions agg (snap_version s) = Some fn"
    for fn
    using that by (simp add: loadSnapshot_def set_all_open setRevision_def)
  have none: "loadSnapshot agg m (Some s) = Inl (NoSnapshotConversion, m)"
    if "snap_version s \<noteq> agg_version agg" "snapshotConversions agg (snap_version s) = None"
    using that by (simp add: loadSnapshot_def)
  have closed: "loadSnapshot agg m (Some s) = Inl (SetNotAllowed, m)"
    if "\<not> settable m" "snap_version s = agg_version agg"
    using that by (simp add: loadSnapshot_def model_set_def)
  have closed_conv: "loadSnapshot agg m (Some s) = Inl (SetNotAllowed, m)"
    if "\<not> settable m" "snap_version s \<noteq> agg_version agg"
      "snapshotConversions agg (snap_version s) = Some fn" "fn (snap_data s) (attributes m) \<noteq> []"
    for fn
    using that by (simp add: loadSnapshot_def set_all_closed)
  have noevents: "loadFromHistory agg m (Some s) [] loadingTime
                    = (case loadSnapshot agg m (Some s) of
                         Inl x \<Rightarrow> Inl x | Inr (flag, m1) \<Rightarrow> Inr (flag, Some m1))"
    by (simp add: loadFromHistory_def loadEvents_def split: sum.splits)
  have flagged: "b" if "loadSnapshot agg m (Some s) = Inr (True, m1)"
      "loadFromHistory agg m (Some s) evts loadingTime = Inr (b, after)" for b after m1
    using that by (auto simp add: loadFromHistory_def loadEvents_def Let_def split: if_splits sum.splits)
  have failed: "loadFromHistory agg m (Some s) evts loadingTime = Inl x"
    if "loadSnapshot agg m (Some s) = Inl x" for x
    using that by (simp add: loadFromHistory_def)
  have rev: "getRevision m' = snap_revision s" if "loadSnapshot agg m (Some s) = Inr (flag, m')" for flag m'
    using that
    by (auto simp add: loadSnapshot_def setRevision_def getRevision_def split: if_splits sum.splits option.splits)
  have rev': "getRevision m' = snap_revision s"
    if "loadFromHistory agg m (Some s) [] loadingTime = Inr (flag, Some m')" for flag m'
  proof -
    from that have "loadSnapshot agg m (Some s) = Inr (flag, m')"
      unfolding noevents by (auto split: sum.splits)
    then show ?thesis by (rule rev)
  qed
  have same': "loadFromHistory agg m (Some s) [] loadingTime
           = Inr (False, Some (m\<lparr>attributes := assign (attributes m) (snap_data s),
                                  revision := snap_revision s\<rparr>))"
    if "settable m" "snap_version s = agg_version agg"
    unfolding noevents using same[OF that] by simp
  show ?thesis
    using same same' conv none flagged failed closed closed_conv rev rev' by blast
qed

theorem C6_loadFromHistory_snapshot_witness:
  "loadFromHistory ex_agg ex_model (Some ex_snapshot) [] 0
     = Inr (False, Some \<lparr>model_id = ''a1'', revision = 7, attributes = JObj [(''inside'', JBool True)],
                          uncommittedEvents = [], settable = True\<rparr>)
   \<and> loadSnapshot ex_agg_conv ex_model (Some ex_snapshot_old)
     = Inr (True, \<lparr>model_id = ''a1'', revision = 4, attributes = JObj [(''inside'', JBool True)],
                   uncommittedEvents = [], settable = True\<rparr>)
   \<and> loadFromHistory ex_agg_conv ex_model (Some ex_snapshot_old)
       [JObj [(''name'', JStr ''entered''), (''revision'', JStr ''5'')]] 0
     = Inr (True, None)
   \<and> loadFromHistory ex_agg ex_model (Some ex_snapshot_old) [] 0 = Inl (NoSnapshotConversion, ex_model)
   \<and> loadFromHistory ex_agg ex_handled (Some ex_snapshot) [] 0 = Inl (SetNotAllowed, ex_handled)
   \<and> loadFromHistory ex_agg_conv ex_handled (Some ex_snapshot_old) [] 0 = Inl (SetNotAllowed, ex_handled)"
proof -
  let ?evts = "[JObj [(''name'', JStr ''entered''), (''revision'', JStr ''5'')]]"
  have g: "settable ex_model" "\<not> settable ex_handled" by code_simp+
  have v: "snap_version ex_snapshot = agg_version ex_agg"
    "snap_version ex_snapshot_old \<noteq> agg_version ex_agg_conv"
    "snap_version ex_snapshot_old \<noteq> agg_version ex_agg"
    by code_simp+
  have c: "snapshotConversions ex_agg_conv (snap_version ex_snapshot_old) = Some ex_conversion"
    "snapshotConversions ex_agg (snap_version ex_snapshot_old) = None"
    by (simp_all add: ex_agg_conv_def defineSnapshotConversion_def ex_snapshot_old_def ex_agg_def)
  have calls: "ex_conversion (snap_data ex_snapshot_old) (attributes ex_handled) \<noteq> []"
    by (simp add: ex_conversion_def)
  have a: "ex_model\<lparr>attributes := assign (attributes ex_model) (snap_data ex_snapshot),
                     revision := snap_revision ex_snapshot\<rparr>
           = \<lparr>model_id = ''a1'', revision = 7, attributes = JObj [(''inside'', JBool True)],
                    uncommittedEvents = [], settable = True\<rparr>"
    by code_simp
  have b: "ex_model\<lparr>attributes := foldl assign (attributes ex_model)
                       (ex_conversion (snap_data ex_snapshot_old) (attributes ex_model)),
                     revision := snap_revision ex_snapshot_old\<rparr>
           = \<lparr>model_id = ''a1'', revision = 4, attributes = JObj [(''inside'', JBool True)],
                    uncommittedEvents = [], settable = True\<rparr>"
    by code_simp
  have ret: "loadFromHistory ex_agg_conv ex_model (Some ex_snapshot_old) ?evts 0
               = Inr (fst (projr (loadFromHistory ex_agg_conv ex_model (Some ex_snapshot_old) ?evts 0)), None)"
    by code_simp
  from C6_loadFromHistory_snapshot [of ex_model ex_snapshot ex_agg 0] g(1) v(1) a
  have 1: "loadFromHistory ex_agg ex_model (Some ex_snapshot) [] 0
     = Inr (False, Some \<lparr>model_id = ''a1'', revision = 7, attributes = JObj [(''inside'', JBool True)],
                    uncommittedEvents = [], settable = True\<rparr>)"
    by simp
  from C6_loadFromHistory_snapshot [of ex_model ex_snapshot_old ex_agg_conv 0 ?evts] g(1) v(2) c(1)
  have 2: "loadSnapshot ex_agg_conv ex_model (Some ex_snapshot_old)
              = Inr (True, ex_model\<lparr>attributes := foldl assign (attributes ex_model)
                               (ex_conversion (snap_data ex_snapshot_old) (attributes ex_model)),
                             revision := snap_revision ex_snapshot_old\<rparr>)"
    and fl: "\<forall>b after. loadFromHistory ex_agg_conv ex_model (Some ex_snapshot_old) ?evts 0 = Inr (b, after) \<longrightarrow> b"
    by blast+
  from fl ret have "fst (projr (loadFromHistory ex_agg_conv ex_model (Some ex_snapshot_old) ?evts 0))"
    by blast
  with ret have 3: "loadFromHistory ex_agg_conv ex_model (Some ex_snapshot_old) ?evts 0 = Inr (True, None)"
    by simp
  from C6_loadFromHistory_snapshot [of ex_model ex_snapshot_old ex_agg 0 "[]"] v(3) c(2)
  have 4: "loadFromHistory ex_agg ex_model (Some ex_snapshot_old) [] 0 = Inl (NoSnapshotConversion, ex_model)"
    by blast
  from C6_loadFromHistory_snapshot [of ex_handled ex_snapshot ex_agg 0 "[]"] g(2) v(1)
  have 5: "loadFromHistory ex_agg ex_handled (Some ex_snapshot) [] 0 = Inl (SetNotAllowed, ex_handled)"
    by blast
  from C6_loadFromHistory_snapshot [of ex_handled ex_snapshot_old ex_agg_conv 0 "[]"] g(2) v(2) c(1) calls
  have 6: "loadFromHistory ex_agg_conv ex_handled (Some ex_snapshot_old) [] 0 = Inl (SetNotAllowed, ex_handled)"
    by blast
  show ?thesis using 1 2 3 4 5 6 b by simp
qed

subsection \<open>A command that failed\<close>

lemma idsAssigned_failed:
  assumes "idsAssigned agg m1 previousModel cmd h (evts, k, r) = Callback (Some e) m' h' n'"
  shows "(r = Some e \<and> m' = m1\<lparr>uncommittedEvents := evts\<rparr>)
     \<or> (r = None \<and> checkBusinessRules agg (m1\<lparr>uncommittedEvents := evts\<rparr>) previousModel evts cmd = Some e
          \<and> attributes m' = toJSON previousModel \<and> uncommittedEvents m' = [])"
  using assms
  by (auto simp add: idsAssigned_def Let_def clearUncommittedEvents_def reset_def split: option.splits)

lemma preConditionsChecked_failed:
  assumes "preConditionsChecked agg command m0 c n (h1, calls, r) = Callback (Some e) m' h' n'"
  shows "(r = Inr (Some e) \<and> m' = m0)
     \<or> (r = Inr None
          \<and> (\<exists>m1 evts k.
                snd (runHandling (cmd_handle command (deref h1 c) (attributes m0)) agg (deref h1 c) m0) = Inr m1
                \<and> ((each_assignId agg (uncommittedEvents m1) n = (evts, k, Some e)
                       \<and> m' = m1\<lparr>uncommittedEvents := evts\<rparr>)
                    \<or> (each_assignId agg (uncommittedEvents m1) n = (evts, k, None)
                         \<and> attributes m' = attributes m0 \<and> uncommittedEvents m' = []))))"
proof (cases r)
  case (Inl x)
  then show ?thesis using assms by (simp add: preConditionsChecked_def)
next
  case (Inr o1)
  show ?thesis
  proof (cases o1)
    case (Some x)
    then show ?thesis using assms Inr by (simp add: preConditionsChecked_def)
  next
    case None
    from assms Inr None obtain m1 where
      rh: "snd (runHandling (cmd_handle command (deref h1 c) (attributes m0)) agg (deref h1 c) m0) = Inr m1"
      by (auto simp add: preConditionsChecked_def Let_def split: sum.splits)
    obtain evts k x where ea: "each_assignId agg (uncommittedEvents m1) n = (evts, k, x)"
      by (cases "each_assignId agg (uncommittedEvents m1) n")
    from assms Inr None rh ea have
      "idsAssigned agg m1 (newAggregateModel (model_id m0) (toJSON m0)) (deref h1 c) h1 (evts, k, x)
         = Callback (Some e) m' h' n'"
      by (simp add: preConditionsChecked_def Let_def getUncommittedEvents_def)
    from idsAssigned_failed[OF this] have
      "(x = Some e \<and> m' = m1\<lparr>uncommittedEvents := evts\<rparr>)
       \<or> (x = None \<and> attributes m' = attributes m0 \<and> uncommittedEvents m' = [])"
      by (auto simp add: toJSON_def newAggregateModel_def)
    with rh ea Inr None show ?thesis by blast
  qed
qed

text \<open>
  The three ways in which \<open>handle\<close> calls its callback with an error: before the
  handler has run (the model is as it was), after a business rule has failed (the
  fields are those from before and the uncommitted events are gone), and after the
  id generator has failed (the model is as the handler left it).
\<close>

lemma handle_failed:
  assumes "handle agg m c h n = Callback (Some e) m' h' n'"
  shows "(attributes m' = attributes m \<and> uncommittedEvents m' = uncommittedEvents m)
     \<or> (attributes m' = attributes m \<and> uncommittedEvents m' = [])
     \<or> (\<exists>(command::commandDef) calls m1 evts.
           checkPreConditions agg c (m\<lparr>settable := False\<rparr>) h = (h', calls, Inr None)
           \<and> snd (runHandling (cmd_handle command (deref h' c) (attributes m)) agg (deref h' c)
                (m\<lparr>settable := False\<rparr>)) = Inr m1
           \<and> each_assignId agg (uncommittedEvents m1) n = (evts, n', Some e)
           \<and> m' = m1\<lparr>uncommittedEvents := evts\<rparr>)"
proof -
  let ?m0 = "m\<lparr>settable := False\<rparr>"
  consider (early) "m' = m"
    | (later) command :: commandDef where
        "preConditionsChecked agg command ?m0 c n (checkPreConditions agg c ?m0 h) = Callback (Some e) m' h' n'"
    using assms by (auto simp add: handle_def Let_def split: if_splits sum.splits option.splits)
  then show ?thesis
  proof cases
    case early
    then show ?thesis by simp
  next
    case later
    obtain h1 calls r where cp: "checkPreConditions agg c ?m0 h = (h1, calls, r)"
      by (cases "checkPreConditions agg c ?m0 h")
    from preConditionsChecked_heap[OF later] cp have h1: "h1 = h'" by simp
    from preConditionsChecked_failed[OF later[unfolded cp]]
    consider (pre) "m' = ?m0"
      | (ids) m1 evts k where
          "snd (runHandling (cmd_handle command (deref h1 c) (attributes ?m0)) agg (deref h1 c) ?m0) = Inr m1"
          "each_assignId agg (uncommittedEvents m1) n = (evts, k, Some e)"
          "m' = m1\<lparr>uncommittedEvents := evts\<rparr>" "r = Inr None"
      | (rule) "attributes m' = attributes ?m0" "uncommittedEvents m' = []"
      by blast
    then show ?thesis
    proof cases
      case pre
      then show ?thesis by simp
    next
      case ids
      from later cp ids have "n' = k"
        by (simp add: preConditionsChecked_def Let_def getUncommittedEvents_def idsAssigned_def)
      with ids cp h1 have
        "checkPreConditions agg c ?m0 h = (h', calls, Inr None)
           \<and> snd (runHandling (cmd_handle command (deref h' c) (attributes m)) agg (deref h' c) ?m0) = Inr m1
           \<and> each_assignId agg (uncommittedEvents m1) n = (evts, n', Some e)
           \<and> m' = m1\<lparr>uncommittedEvents := evts\<rparr>"
        by simp
      then show ?thesis by blast
    next
      case rule
      then show ?thesis by simp
    qed
  qed
qed

text \<open>
  C1 at an explicit input: the id generator fails. \<open>handle\<close> calls its callback with
  the generator's error while the model still has the fields the handler set and the
  two events it emitted.
\<close>

theorem C1_id_failure_keeps_changes:
  "handle ex_agg_noid ex_model 0 [ex_cmd] 0 = Callback (Some (Failure ''no id'')) ex_ran [ex_cmd] 1
   \<and> attributes ex_model = JObj []
   \<and> attributes ex_ran = JObj [(''inside'', JBool True)]
   \<and> uncommittedEvents ex_model = []
   \<and> uncommittedEvents ex_ran = [ex_emitted, ex_emitted_given]"
  by code_simp

end
